theory Spec2Isabelle
  imports Main "HOL-Library.Sublist" "HOL-Library.AList"
begin

section \<open>Python values, exceptions and messages\<close>

text \<open>
  The notebook is Python. A raise is a value \<open>Inl e\<close> of the result type \<open>error + 'a\<close>; the
  constructors of \<open>error\<close> are exception classes. \<open>Raised x\<close> is an exception that comes
  out of an external collaborator (the language model call, the search tool, the
  execution of the code). Such an exception is an opaque object that the notebook
  observes only through \<open>repr(e)\<close>, so it is identified by that string.
\<close>

datatype exn = Exn (py_repr: string)

datatype error =
    IndexError
  | KeyError string
  | TypeError
  | AttributeError
  | ValueError
  | StopIteration
  | JSONDecodeError
  | RecursionError
  | ValidationError
  | GraphRecursionError
  | Raised exn

text \<open>
  The values that \<open>json.loads\<close> produces and that \<open>additional_kwargs\<close> holds. A \<open>dict\<close>
  keeps insertion order, so it is an association list with distinct keys: \<open>PDict\<close> when
  all its keys are strings, as the keys of a JSON object are, and \<open>PDictAny\<close> when it has
  a key that is not a string, which only the conversion \<open>dict(v)\<close> of a list of pairs
  gives. A float is kept as the lexeme it was read from. A Python \<open>str\<close> is modelled by
  its UTF-8 encoding, one \<open>char\<close> per byte.
\<close>

datatype pyval =
    PNone
  | PBool bool
  | PInt int
  | PFloat string
  | PStr string
  | PList "pyval list"
  | PDict "(string \<times> pyval) list"
  | PDictAny "(pyval \<times> pyval) list"

text \<open>
  \<open>langchain_core.messages\<close>: the classes the notebook imports. The notebook reads the
  fields \<open>content\<close>, \<open>additional_kwargs\<close> and \<open>name\<close>; \<open>content\<close> is the text of a chat
  message.
\<close>

datatype msg_class = AIMessage | ChatMessage | FunctionMessage | HumanMessage | SystemMessage

record message =
  msg_class :: msg_class
  content :: string
  additional_kwargs :: "(string \<times> pyval) list"
  name :: "string option"

text \<open>
  \<^verbatim>\<open>
  class AgentState(TypedDict):
      messages: Annotated[Sequence[BaseMessage], operator.add]
      sender: str
  \<close>
  The input of \<open>graph.stream\<close> has no \<open>sender\<close> key, so the tag is absent (\<open>None\<close>) until
  a node writes it.
\<close>

record AgentState =
  messages :: "message list"
  sender :: "string option"

text \<open>
  What a node returns: a dict with the key \<open>messages\<close> and, for agent nodes, the key
  \<open>sender\<close> (\<open>None\<close>: the key is absent).
\<close>

record update =
  u_messages :: "message list"
  u_sender :: "string option"

text \<open>
  The graph folds an update into the state channel by channel: \<open>messages\<close> through its
  reducer \<open>operator.add\<close> (list concatenation, old value first), \<open>sender\<close> by overwriting
  when the key is present.
\<close>

definition apply_update :: "AgentState \<Rightarrow> update \<Rightarrow> AgentState" where
  "apply_update st u =
     \<lparr>messages = messages st @ u_messages u,
      sender = (case u_sender u of None \<Rightarrow> sender st | Some s \<Rightarrow> Some s)\<rparr>"

subsection \<open>Python primitives used by the notebook\<close>

text \<open>\<open>xs[-1]\<close>: the last element, \<open>IndexError\<close> on the empty list.\<close>

definition py_last :: "'a list \<Rightarrow> error + 'a" where
  "py_last xs = (if xs = [] then Inl IndexError else Inr (last xs))"

text \<open>\<open>k in d\<close> and \<open>d[k]\<close> for a dict \<open>d\<close>.\<close>

definition py_in_dict :: "string \<Rightarrow> (string \<times> pyval) list \<Rightarrow> bool" where
  "py_in_dict k d = (k \<in> set (map fst d))"

definition dict_getitem :: "(string \<times> pyval) list \<Rightarrow> string \<Rightarrow> error + pyval" where
  "dict_getitem d k = (case map_of d k of None \<Rightarrow> Inl (KeyError k) | Some v \<Rightarrow> Inr v)"

text \<open>\<open>sub in s\<close> for two strings: \<open>sub\<close> occurs in \<open>s\<close> as a contiguous substring.\<close>

fun py_in_str :: "string \<Rightarrow> string \<Rightarrow> bool" where
  "py_in_str sub [] = (sub = [])"
| "py_in_str sub (c # cs) = (prefix sub (c # cs) \<or> py_in_str sub cs)"

text \<open>
  \<open>x[k]\<close> with a string key on any value: only a dict has string subscripts.
\<close>

fun py_getitem :: "pyval \<Rightarrow> string \<Rightarrow> error + pyval" where
  "py_getitem (PDict d) k = dict_getitem d k"
| "py_getitem (PDictAny d) k =
     (case map_of d (PStr k) of None \<Rightarrow> Inl (KeyError k) | Some v \<Rightarrow> Inr v)"
| "py_getitem _ k = Inl TypeError"

text \<open>
  \<open>len(x)\<close>: the number of code points of a string (the bytes of its encoding that are
  not continuation bytes), of elements of a list, of keys of a dict; \<open>TypeError\<close> on
  anything else.
\<close>

definition is_continuation :: "char \<Rightarrow> bool" where
  "is_continuation c = (0x80 \<le> (of_char c :: nat) \<and> (of_char c :: nat) < 0xC0)"

fun py_len :: "pyval \<Rightarrow> error + nat" where
  "py_len (PStr s) = Inr (length (filter (\<lambda>c. \<not> is_continuation c) s))"
| "py_len (PList xs) = Inr (length xs)"
| "py_len (PDict d) = Inr (length d)"
| "py_len (PDictAny d) = Inr (length d)"
| "py_len _ = Inl TypeError"

text \<open>\<open>k in x\<close> for a string \<open>k\<close> and any value \<open>x\<close>.\<close>

fun py_contains :: "string \<Rightarrow> pyval \<Rightarrow> error + bool" where
  "py_contains k (PStr s) = Inr (py_in_str k s)"
| "py_contains k (PList xs) = Inr (PStr k \<in> set xs)"
| "py_contains k (PDict d) = Inr (py_in_dict k d)"
| "py_contains k (PDictAny d) = Inr (PStr k \<in> set (map fst d))"
| "py_contains k _ = Inl TypeError"

text \<open>\<open>next(iter(x.values()))\<close>: only a dict has \<open>values\<close>.\<close>

fun py_first_value :: "pyval \<Rightarrow> error + pyval" where
  "py_first_value (PDict []) = Inl StopIteration"
| "py_first_value (PDict ((k, v) # d)) = Inr v"
| "py_first_value (PDictAny []) = Inl StopIteration"
| "py_first_value (PDictAny ((k, v) # d)) = Inr v"
| "py_first_value _ = Inl AttributeError"

section \<open>json.loads\<close>

text \<open>
  The decoder of the standard library, on a \<open>str\<close>: the grammar of \<open>json.scanner\<close> and
  \<open>json.decoder\<close> with the default hooks (\<open>strict\<close> strings, the constants \<open>NaN\<close>,
  \<open>Infinity\<close> and \<open>-Infinity\<close> accepted, an integer of more than 4300 digits refused
  with \<open>ValueError\<close>). Every syntax error is \<open>JSONDecodeError\<close>. The interpreter's
  resource limits (recursion depth, memory) are not modelled.
\<close>

text \<open>\<open>WHITESPACE = [ \t\n\r]*\<close>\<close>

definition is_ws :: "char \<Rightarrow> bool" where
  "is_ws c = (c \<in> set [CHR '' '', CHR 0x09, CHR 0x0A, CHR 0x0D])"

definition skip_ws :: "string \<Rightarrow> string" where
  "skip_ws s = dropWhile is_ws s"

definition is_digit :: "char \<Rightarrow> bool" where
  "is_digit c = (c \<in> set ''0123456789'')"

definition digit_val :: "char \<Rightarrow> nat" where
  "digit_val c = of_char c - 48"

definition int_of_digits :: "string \<Rightarrow> int" where
  "int_of_digits ds = foldl (\<lambda>n c. 10 * n + int (digit_val c)) 0 ds"

text \<open>
  \<open>scanstring\<close>, entered after the opening quote: the characters up to the closing
  quote, with the escapes decoded. A control character (below 0x20), an unknown escape,
  a bad \<open>\uXXXX\<close> and a missing closing quote are errors. A high surrogate followed by
  an escaped low surrogate is one code point.
\<close>

definition hex_val :: "char \<Rightarrow> nat option" where
  "hex_val c =
     (if is_digit c then Some (of_char c - 48)
      else if c \<in> set ''abcdef'' then Some (of_char c - 87)
      else if c \<in> set ''ABCDEF'' then Some (of_char c - 55)
      else None)"

fun decode_uXXXX :: "string \<Rightarrow> nat option" where
  "decode_uXXXX [a, b, c, d] =
     (case (hex_val a, hex_val b, hex_val c, hex_val d) of
        (Some x, Some y, Some z, Some w) \<Rightarrow> Some (((x * 16 + y) * 16 + z) * 16 + w)
      | _ \<Rightarrow> None)"
| "decode_uXXXX _ = None"

definition utf8 :: "nat \<Rightarrow> string" where
  "utf8 cp =
     map char_of
       (if cp < 0x80 then [cp]
        else if cp < 0x800 then [0xC0 + cp div 0x40, 0x80 + cp mod 0x40]
        else if cp < 0x10000 then
          [0xE0 + cp div 0x1000, 0x80 + cp div 0x40 mod 0x40, 0x80 + cp mod 0x40]
        else
          [0xF0 + cp div 0x40000, 0x80 + cp div 0x1000 mod 0x40,
           0x80 + cp div 0x40 mod 0x40, 0x80 + cp mod 0x40])"

definition BACKSLASH :: "char \<Rightarrow> char option" where
  "BACKSLASH c =
     (if c = CHR 0x22 then Some (CHR 0x22)
      else if c = CHR 0x5C then Some (CHR 0x5C)
      else if c = CHR ''/'' then Some (CHR ''/'')
      else if c = CHR ''b'' then Some (CHR 0x08)
      else if c = CHR ''f'' then Some (CHR 0x0C)
      else if c = CHR ''n'' then Some (CHR 0x0A)
      else if c = CHR ''r'' then Some (CHR 0x0D)
      else if c = CHR ''t'' then Some (CHR 0x09)
      else None)"

definition unicode_escape :: "string \<Rightarrow> (string \<times> string) option" where
  "unicode_escape s =
     (case decode_uXXXX (take 4 s) of
        None \<Rightarrow> None
      | Some uni \<Rightarrow>
          let r = drop 4 s in
          if 0xD800 \<le> uni \<and> uni \<le> 0xDBFF \<and> take 2 r = [CHR 0x5C, CHR ''u'']
          then (case decode_uXXXX (take 4 (drop 2 r)) of
                  None \<Rightarrow> None
                | Some uni2 \<Rightarrow>
                    if 0xDC00 \<le> uni2 \<and> uni2 \<le> 0xDFFF
                    then Some (utf8 (0x10000 + (uni - 0xD800) * 0x400 + (uni2 - 0xDC00)),
                               drop 6 r)
                    else Some (utf8 uni, r))
          else Some (utf8 uni, r))"

function scanstring :: "string \<Rightarrow> error + string \<times> string" where
  "scanstring [] = Inl JSONDecodeError"
| "scanstring (c # cs) =
     (if c = CHR 0x22 then Inr ([], cs)
      else if c = CHR 0x5C then
        (case cs of
           [] \<Rightarrow> Inl JSONDecodeError
         | esc # cs' \<Rightarrow>
             if esc = CHR ''u'' then
               (case unicode_escape cs' of
                  None \<Rightarrow> Inl JSONDecodeError
                | Some (chars, r) \<Rightarrow>
                    (case scanstring r of
                       Inl e \<Rightarrow> Inl e
                     | Inr (str, rest) \<Rightarrow> Inr (chars @ str, rest)))
             else
               (case BACKSLASH esc of
                  None \<Rightarrow> Inl JSONDecodeError
                | Some ch \<Rightarrow>
                    (case scanstring cs' of
                       Inl e \<Rightarrow> Inl e
                     | Inr (str, rest) \<Rightarrow> Inr (ch # str, rest))))
      else if (of_char c :: nat) < 0x20 then Inl JSONDecodeError
      else
        (case scanstring cs of
           Inl e \<Rightarrow> Inl e
         | Inr (str, rest) \<Rightarrow> Inr (c # str, rest)))"
  by pat_completeness auto

lemma unicode_escape_length:
  "unicode_escape s = Some (chars, r) \<Longrightarrow> length r \<le> length s"
  by (auto simp: unicode_escape_def Let_def split: option.splits if_splits)

termination scanstring
  by (relation "measure length") (auto dest: unicode_escape_length)

text \<open>
  A character that stands for itself between the quotes: \<open>scanstring\<close> copies it. The
  others are the quote, the backslash and the control characters.
\<close>

definition unescaped :: "char \<Rightarrow> bool" where
  "unescaped c = (c \<noteq> CHR 0x22 \<and> c \<noteq> CHR 0x5C \<and> \<not> (of_char c :: nat) < 0x20)"

text \<open>
  \<open>NUMBER_RE = (-?(?:0|[1-9]\d*))(\.\d+)?([eE][-+]?\d+)?\<close>, matched at the start of
  the input: the integer part, then the optional fraction and exponent. With a fraction
  or an exponent the number is a float, otherwise an int.
\<close>

definition match_integer :: "string \<Rightarrow> (string \<times> string) option" where
  "match_integer s =
     (let (sign, s1) = (case s of [] \<Rightarrow> ([], s)
                        | c # t \<Rightarrow> if c = CHR ''-'' then ([c], t) else ([], s))
      in case s1 of
           [] \<Rightarrow> None
         | d # t \<Rightarrow>
             if d = CHR ''0'' then Some (sign @ [d], t)
             else if is_digit d then Some (sign @ takeWhile is_digit s1, dropWhile is_digit s1)
             else None)"

definition match_frac :: "string \<Rightarrow> string \<times> string" where
  "match_frac s =
     (case s of
        [] \<Rightarrow> ([], s)
      | c # t \<Rightarrow>
          if c = CHR ''.'' \<and> takeWhile is_digit t \<noteq> []
          then (c # takeWhile is_digit t, dropWhile is_digit t)
          else ([], s))"

definition match_exp :: "string \<Rightarrow> string \<times> string" where
  "match_exp s =
     (case s of
        [] \<Rightarrow> ([], s)
      | c # t \<Rightarrow>
          if c = CHR ''e'' \<or> c = CHR ''E'' then
            (let (sign, t1) = (case t of [] \<Rightarrow> ([], t)
                               | g # t' \<Rightarrow> if g = CHR ''-'' \<or> g = CHR ''+''
                                           then ([g], t') else ([], t))
             in if takeWhile is_digit t1 \<noteq> []
                then (c # sign @ takeWhile is_digit t1, dropWhile is_digit t1)
                else ([], s))
          else ([], s))"

definition int_of_lexeme :: "string \<Rightarrow> error + int" where
  "int_of_lexeme lx =
     (let (neg, ds) = (case lx of [] \<Rightarrow> (False, lx)
                       | c # t \<Rightarrow> if c = CHR ''-'' then (True, t) else (False, lx))
      in if length ds > 4300 then Inl ValueError
         else Inr (if neg then - int_of_digits ds else int_of_digits ds))"

definition match_number :: "string \<Rightarrow> (error + pyval \<times> string) option" where
  "match_number s =
     (case match_integer s of
        None \<Rightarrow> None
      | Some (integer, r1) \<Rightarrow>
          let (frac, r2) = match_frac r1; (exp, r3) = match_exp r2
          in if frac \<noteq> [] \<or> exp \<noteq> [] then Some (Inr (PFloat (integer @ frac @ exp), r3))
             else (case int_of_lexeme integer of
                     Inl e \<Rightarrow> Some (Inl e)
                   | Inr i \<Rightarrow> Some (Inr (PInt i, r3))))"

text \<open>
  \<open>dict(pairs)\<close>: a repeated key keeps its first position and takes its last value.
\<close>

definition py_dict :: "(string \<times> pyval) list \<Rightarrow> (string \<times> pyval) list" where
  "py_dict pairs = foldl (\<lambda>d (k, v). AList.update k v d) [] pairs"

text \<open>
  \<open>scan_once\<close> reads one value at the start of the input and returns it with the rest of
  the input; \<open>JSONArray\<close> is entered at the first element of a non-empty array,
  \<open>JSONObject\<close> after the opening quote of the first key. The first argument bounds
  the number of calls still allowed; \<open>json_loads\<close> supplies more than the decoder can
  use (lemma \<open>json_loads_fuel\<close>), so the equations for 0 are never reached from it.
\<close>

fun scan_once :: "nat \<Rightarrow> string \<Rightarrow> error + pyval \<times> string"
  and JSONArray :: "nat \<Rightarrow> string \<Rightarrow> pyval list \<Rightarrow> error + pyval \<times> string"
  and JSONObject :: "nat \<Rightarrow> string \<Rightarrow> (string \<times> pyval) list \<Rightarrow> error + pyval \<times> string"
where
  "scan_once 0 s = Inl RecursionError"
| "scan_once (Suc n) s =
     (case s of
        [] \<Rightarrow> Inl JSONDecodeError
      | c # cs \<Rightarrow>
          if c = CHR 0x22 then
            (case scanstring cs of
               Inl e \<Rightarrow> Inl e
             | Inr (str, rest) \<Rightarrow> Inr (PStr str, rest))
          else if c = CHR ''{'' then
            (case skip_ws cs of
               [] \<Rightarrow> Inl JSONDecodeError
             | d # ds \<Rightarrow>
                 if d = CHR ''}'' then Inr (PDict [], ds)
                 else if d = CHR 0x22 then JSONObject n ds []
                 else Inl JSONDecodeError)
          else if c = CHR ''['' then
            (case skip_ws cs of
               [] \<Rightarrow> Inl JSONDecodeError
             | d # ds \<Rightarrow>
                 if d = CHR '']'' then Inr (PList [], ds)
                 else JSONArray n (d # ds) [])
          else if prefix ''null'' s then Inr (PNone, drop 4 s)
          else if prefix ''true'' s then Inr (PBool True, drop 4 s)
          else if prefix ''false'' s then Inr (PBool False, drop 5 s)
          else
            (case match_number s of
               Some r \<Rightarrow> r
             | None \<Rightarrow>
                 if prefix ''NaN'' s then Inr (PFloat ''NaN'', drop 3 s)
                 else if prefix ''Infinity'' s then Inr (PFloat ''Infinity'', drop 8 s)
                 else if prefix ''-Infinity'' s then Inr (PFloat ''-Infinity'', drop 9 s)
                 else Inl JSONDecodeError))"
| "JSONArray 0 s values = Inl RecursionError"
| "JSONArray (Suc n) s values =
     (case scan_once n s of
        Inl e \<Rightarrow> Inl e
      | Inr (v, r) \<Rightarrow>
          (case skip_ws r of
             [] \<Rightarrow> Inl JSONDecodeError
           | d # ds \<Rightarrow>
               if d = CHR '']'' then Inr (PList (values @ [v]), ds)
               else if d = CHR '','' then JSONArray n (skip_ws ds) (values @ [v])
               else Inl JSONDecodeError))"
| "JSONObject 0 s pairs = Inl RecursionError"
| "JSONObject (Suc n) s pairs =
     (case scanstring s of
        Inl e \<Rightarrow> Inl e
      | Inr (key, r) \<Rightarrow>
          (case skip_ws r of
             [] \<Rightarrow> Inl JSONDecodeError
           | c # cs \<Rightarrow>
               if c \<noteq> CHR '':'' then Inl JSONDecodeError
               else
                 (case scan_once n (skip_ws cs) of
                    Inl e \<Rightarrow> Inl e
                  | Inr (v, r') \<Rightarrow>
                      (case skip_ws r' of
                         [] \<Rightarrow> Inl JSONDecodeError
                       | d # ds \<Rightarrow>
                           if d = CHR ''}'' then Inr (PDict (py_dict (pairs @ [(key, v)])), ds)
                           else if d = CHR '','' then
                             (case skip_ws ds of
                                [] \<Rightarrow> Inl JSONDecodeError
                              | q # qs \<Rightarrow>
                                  if q = CHR 0x22 then JSONObject n qs (pairs @ [(key, v)])
                                  else Inl JSONDecodeError)
                           else Inl JSONDecodeError))))"

text \<open>
  \<open>json.loads(s)\<close> for a \<open>str\<close>: a leading byte order mark is refused, white space
  around the value is skipped, anything after it is an error (extra data).
\<close>

definition json_loads :: "string \<Rightarrow> error + pyval" where
  "json_loads s =
     (if prefix [CHR 0xEF, CHR 0xBB, CHR 0xBF] s then Inl JSONDecodeError
      else
        (case scan_once (2 * length s + 2) (skip_ws s) of
           Inl e \<Rightarrow> Inl e
         | Inr (obj, r) \<Rightarrow> if skip_ws r = [] then Inr obj else Inl JSONDecodeError))"

text \<open>\<open>json.loads(x)\<close> on any value: only a \<open>str\<close> is decoded here.\<close>

fun py_json_loads :: "pyval \<Rightarrow> error + pyval" where
  "py_json_loads (PStr s) = json_loads s"
| "py_json_loads _ = Inl TypeError"

section \<open>Tools\<close>

text \<open>
  A tool response is an opaque object too: \<open>tool_node\<close> observes it only through
  \<open>str(response)\<close>, so it is identified by that string. For a response that is a \<open>str\<close>,
  as \<open>python_repl\<close> returns, that is the string itself.
\<close>

datatype response = Response (py_str: string)

record tool =
  t_name :: string
  t_invoke :: "pyval \<Rightarrow> error + response"

subsection \<open>str() of a number\<close>

text \<open>\<open>str(i)\<close> for an int: its decimal digits, with the sign.\<close>

function digits_of :: "int \<Rightarrow> string" where
  "digits_of n =
     (if n < 10 then [char_of (48 + nat n)]
      else digits_of (n div 10) @ [char_of (48 + nat (n mod 10))])"
  by pat_completeness auto
termination
  by (relation "measure nat") auto

declare digits_of.simps [simp del]

definition py_int_str :: "int \<Rightarrow> string" where
  "py_int_str i = (if i < 0 then CHR ''-'' # digits_of (- i) else digits_of i)"

definition py_bool_str :: "bool \<Rightarrow> string" where
  "py_bool_str b = (if b then ''True'' else ''False'')"

text \<open>
  \<open>float(lexeme)\<close>: the double nearest to the decimal number, ties to the even mantissa.
  A finite double is its sign, mantissa and binary exponent (the value is
  \<open>m * 2 ^ k\<close>, with \<open>2 ^ 52 \<le> m < 2 ^ 53\<close> and \<open>- 1074 \<le> k \<le> 971\<close>, or \<open>m < 2 ^ 52\<close> and
  \<open>k = - 1074\<close>, or zero). All arithmetic is exact, on integers.
\<close>

datatype pyfloat = Finite bool int int | Infinite bool | NaN

function bit_length :: "int \<Rightarrow> int" where
  "bit_length n = (if n \<le> 0 then 0 else 1 + bit_length (n div 2))"
  by pat_completeness auto
termination
  by (relation "measure nat") auto

declare bit_length.simps [simp del]

function dec_length :: "int \<Rightarrow> int" where
  "dec_length n = (if n \<le> 0 then 0 else 1 + dec_length (n div 10))"
  by pat_completeness auto
termination
  by (relation "measure nat") auto

declare dec_length.simps [simp del]

definition round_half_even :: "int \<Rightarrow> int \<Rightarrow> int" where
  "round_half_even num den =
     (let q = num div den; r = num mod den
      in if 2 * r < den then q
         else if den < 2 * r then q + 1
         else if even q then q else q + 1)"

text \<open>
  The floor of the logarithm of \<open>num / den\<close> to the base \<open>b\<close>, for positive \<open>num\<close> and
  \<open>den\<close>, from the lengths of the two numbers in that base.
\<close>

definition floor_log :: "int \<Rightarrow> (int \<Rightarrow> int) \<Rightarrow> int \<Rightarrow> int \<Rightarrow> int" where
  "floor_log b len num den =
     (let e = len num - len den
      in if (if 0 \<le> e then den * b ^ nat e \<le> num else den \<le> num * b ^ nat (- e))
         then e else e - 1)"

definition to_double :: "bool \<Rightarrow> int \<Rightarrow> int \<Rightarrow> pyfloat" where
  "to_double neg num den =
     (if num = 0 then Finite neg 0 0
      else
        let k = max (floor_log 2 bit_length num den - 52) (- 1074);
            m = (if 0 \<le> k then round_half_even num (den * 2 ^ nat k)
                 else round_half_even (num * 2 ^ nat (- k)) den);
            k' = (if m = 2 ^ 53 then k + 1 else k);
            m' = (if m = 2 ^ 53 then 2 ^ 52 else m)
        in if 971 < k' then Infinite neg
           else if m' = 0 then Finite neg 0 0
           else Finite neg m' k')"

text \<open>The double nearest to \<open>d * 10 ^ s\<close>.\<close>

definition scaled :: "bool \<Rightarrow> int \<Rightarrow> int \<Rightarrow> pyfloat" where
  "scaled neg d s =
     (if 0 \<le> s then to_double neg (d * 10 ^ nat s) 1 else to_double neg d (10 ^ nat (- s)))"

text \<open>
  The lexeme is one that \<open>NUMBER_RE\<close> matched, or one of the three constants. A number
  of more than 400 digits before the point is infinite and one with more than 400
  zeros after it is zero, whatever its digits.
\<close>

definition float_of_lexeme :: "string \<Rightarrow> pyfloat" where
  "float_of_lexeme lx =
     (if lx = ''NaN'' then NaN
      else if lx = ''Infinity'' then Infinite False
      else if lx = ''-Infinity'' then Infinite True
      else
        let neg = (take 1 lx = ''-'');
            body = (if neg then drop 1 lx else lx);
            ip = takeWhile is_digit body;
            r1 = dropWhile is_digit body;
            fp = (if take 1 r1 = ''.'' then takeWhile is_digit (drop 1 r1) else []);
            r2 = (if take 1 r1 = ''.'' then dropWhile is_digit (drop 1 r1) else r1);
            r3 = drop 1 r2;
            eneg = (take 1 r3 = ''-'');
            ed = (if take 1 r3 = ''-'' \<or> take 1 r3 = ''+'' then drop 1 r3 else r3);
            ex = (if eneg then - int_of_digits ed else int_of_digits ed);
            m = int_of_digits (ip @ fp);
            e10 = ex - int (length fp);
            magnitude = dec_length m + e10
        in if m = 0 then Finite neg 0 0
           else if 400 < magnitude then Infinite neg
           else if magnitude < - 400 then Finite neg 0 0
           else scaled neg m e10)"

text \<open>
  \<open>str(x)\<close> for a float is \<open>repr(x)\<close>: the shortest digits that read back as the same
  double (of two such, the nearer), in exponent form when the decimal point falls
  outside the digits by more than the format allows. \<open>shortest\<close> tries 1 to 17 digits:
  the two decimals of \<open>p\<close> digits next to the value, \<open>lo\<close> and \<open>hi\<close>, with \<open>s\<close> the exponent of
  their last digit.
\<close>

fun shortest :: "nat \<Rightarrow> int \<Rightarrow> int \<Rightarrow> int \<Rightarrow> int \<Rightarrow> int \<Rightarrow> int \<Rightarrow> int \<times> int" where
  "shortest 0 p x num den m k = (0, 0)"
| "shortest (Suc fuel) p x num den m k =
     (let s = x - p + 1;
          cn = (if 0 \<le> s then num else num * 10 ^ nat (- s));
          cd = (if 0 \<le> s then den * 10 ^ nat s else den);
          lo = cn div cd;
          hi = lo + 1;
          oklo = (scaled False lo s = Finite False m k);
          okhi = (scaled False hi s = Finite False m k)
      in if oklo \<and> okhi then
           (if 2 * cn < (2 * lo + 1) * cd then (lo, s)
            else if (2 * lo + 1) * cd < 2 * cn then (hi, s)
            else if even lo then (lo, s) else (hi, s))
         else if oklo then (lo, s)
         else if okhi then (hi, s)
         else shortest fuel (p + 1) x num den m k)"

definition strip_zeros :: "string \<Rightarrow> string" where
  "strip_zeros ds = rev (dropWhile (\<lambda>c. c = CHR ''0'') (rev ds))"

definition exponent_str :: "int \<Rightarrow> string" where
  "exponent_str e =
     (if e < 0 then ''-'' else ''+'')
       @ (if \<bar>e\<bar> < 10 then CHR ''0'' # digits_of \<bar>e\<bar> else digits_of \<bar>e\<bar>)"

definition format_repr :: "string \<Rightarrow> int \<Rightarrow> string" where
  "format_repr ds decpt =
     (let n = int (length ds)
      in if decpt \<le> - 4 \<or> 16 < decpt then
           take 1 ds @ (if 1 < n then CHR ''.'' # drop 1 ds else []) @ ''e''
             @ exponent_str (decpt - 1)
         else if decpt \<le> 0 then ''0.'' @ replicate (nat (- decpt)) (CHR ''0'') @ ds
         else if n \<le> decpt then ds @ replicate (nat (decpt - n)) (CHR ''0'') @ ''.0''
         else take (nat decpt) ds @ ''.'' @ drop (nat decpt) ds)"

definition float_repr :: "pyfloat \<Rightarrow> string" where
  "float_repr f =
     (case f of
        NaN \<Rightarrow> ''nan''
      | Infinite neg \<Rightarrow> (if neg then ''-inf'' else ''inf'')
      | Finite neg m k \<Rightarrow>
          (if neg then ''-'' else [])
          @ (if m = 0 then ''0.0''
             else
               let num = (if 0 \<le> k then m * 2 ^ nat k else m);
                   den = (if 0 \<le> k then 1 else 2 ^ nat (- k));
                   x = floor_log 10 dec_length num den;
                   (d, s) = shortest 17 1 x num den m k;
                   ds = digits_of d
               in format_repr (strip_zeros ds) (s + int (length ds))))"

definition py_float_str :: "string \<Rightarrow> string" where
  "py_float_str lx = float_repr (float_of_lexeme lx)"

subsection \<open>The framework's validation of a field\<close>

text \<open>
  The framework's classes are validated models: a value given for a field is checked
  against the declared type of the field and converted to it where the validator of
  the type allows, and the construction raises \<open>ValidationError\<close> where it does not.

  A field declared \<open>str\<close> takes a \<open>str\<close> as it is and an int, a float or a bool as its
  \<open>str()\<close>; it refuses \<open>None\<close>, a list and a dict.
\<close>

fun str_validator :: "pyval \<Rightarrow> error + string" where
  "str_validator (PStr s) = Inr s"
| "str_validator (PInt i) = Inr (py_int_str i)"
| "str_validator (PFloat lx) = Inr (py_float_str lx)"
| "str_validator (PBool b) = Inr (py_bool_str b)"
| "str_validator _ = Inl ValidationError"

text \<open>
  The keys of a dict are hashable values: every value here but a list and a dict. Two
  keys are the same key when they are equal: two strings with the same characters,
  \<open>None\<close> and \<open>None\<close>, and two numbers of the same value, a bool counting as the int 1 or
  0 and an int being compared with a float exactly. \<open>NaN\<close> is one object of the decoder,
  the same key wherever it occurs, and not equal to any other number.
\<close>

fun hashable :: "pyval \<Rightarrow> bool" where
  "hashable (PList xs) = False"
| "hashable (PDict d) = False"
| "hashable (PDictAny d) = False"
| "hashable _ = True"

fun float_eq :: "pyfloat \<Rightarrow> pyfloat \<Rightarrow> bool" where
  "float_eq (Finite n1 m1 k1) (Finite n2 m2 k2) =
     ((m1 = 0 \<and> m2 = 0) \<or> (n1 = n2 \<and> m1 = m2 \<and> k1 = k2))"
| "float_eq (Infinite n1) (Infinite n2) = (n1 = n2)"
| "float_eq NaN NaN = True"
| "float_eq _ _ = False"

fun float_eq_int :: "pyfloat \<Rightarrow> int \<Rightarrow> bool" where
  "float_eq_int (Finite neg m k) i =
     (let v = (if neg then - m else m)
      in if 0 \<le> k then i = v * 2 ^ nat k
         else v mod 2 ^ nat (- k) = 0 \<and> i = v div 2 ^ nat (- k))"
| "float_eq_int _ i = False"

fun key_number :: "pyval \<Rightarrow> (int + pyfloat) option" where
  "key_number (PBool b) = Some (Inl (if b then 1 else 0))"
| "key_number (PInt i) = Some (Inl i)"
| "key_number (PFloat lx) = Some (Inr (float_of_lexeme lx))"
| "key_number _ = None"

fun number_eq :: "int + pyfloat \<Rightarrow> int + pyfloat \<Rightarrow> bool" where
  "number_eq (Inl i) (Inl j) = (i = j)"
| "number_eq (Inl i) (Inr y) = float_eq_int y i"
| "number_eq (Inr x) (Inl j) = float_eq_int x j"
| "number_eq (Inr x) (Inr y) = float_eq x y"

fun key_eq :: "pyval \<Rightarrow> pyval \<Rightarrow> bool" where
  "key_eq (PStr a) (PStr b) = (a = b)"
| "key_eq PNone PNone = True"
| "key_eq a b =
     (case (key_number a, key_number b) of
        (Some x, Some y) \<Rightarrow> number_eq x y
      | _ \<Rightarrow> False)"

text \<open>
  \<open>d[k] = v\<close> on the association list of a dict, and the dict built from a list of pairs:
  a repeated key keeps its first position (and the key object that came first) and
  takes its last value.
\<close>

fun key_update :: "pyval \<Rightarrow> pyval \<Rightarrow> (pyval \<times> pyval) list \<Rightarrow> (pyval \<times> pyval) list" where
  "key_update k v [] = [(k, v)]"
| "key_update k v ((k', v') # d) =
     (if key_eq k' k then (k', v) # d else (k', v') # key_update k v d)"

fun str_key :: "pyval \<times> pyval \<Rightarrow> (string \<times> pyval) option" where
  "str_key (PStr k, v) = Some (k, v)"
| "str_key _ = None"

definition dict_of_pairs :: "(pyval \<times> pyval) list \<Rightarrow> pyval" where
  "dict_of_pairs pairs =
     (let d = foldl (\<lambda>d (k, v). key_update k v d) [] pairs
      in case those (map str_key d) of
           Some sd \<Rightarrow> PDict sd
         | None \<Rightarrow> PDictAny d)"

text \<open>
  A field declared \<open>dict\<close> takes a dict as it is and anything else through \<open>dict(v)\<close>,
  refusing what \<open>dict(v)\<close> raises on. Of the values here only a list can pass: a list
  whose every element has exactly two items (a list of two values, a \<open>str\<close> of two
  characters, a dict of two keys, which gives its keys), the first of them hashable.
\<close>

function code_points :: "string \<Rightarrow> string list" where
  "code_points [] = []"
| "code_points (c # cs) =
     (c # takeWhile is_continuation cs) # code_points (dropWhile is_continuation cs)"
  by pat_completeness auto
termination
  by (relation "measure length") (auto simp: less_Suc_eq_le length_dropWhile_le)

fun dict_item :: "pyval \<Rightarrow> error + pyval \<times> pyval" where
  "dict_item (PList [k, v]) = (if hashable k then Inr (k, v) else Inl ValidationError)"
| "dict_item (PStr s) =
     (case code_points s of [a, b] \<Rightarrow> Inr (PStr a, PStr b) | _ \<Rightarrow> Inl ValidationError)"
| "dict_item (PDict [(k1, v1), (k2, v2)]) = Inr (PStr k1, PStr k2)"
| "dict_item (PDictAny [(k1, v1), (k2, v2)]) = Inr (k1, k2)"
| "dict_item _ = Inl ValidationError"

fun dict_items :: "pyval list \<Rightarrow> error + (pyval \<times> pyval) list" where
  "dict_items [] = Inr []"
| "dict_items (x # xs) =
     (case dict_item x of
        Inl e \<Rightarrow> Inl e
      | Inr kv \<Rightarrow>
          (case dict_items xs of
             Inl e \<Rightarrow> Inl e
           | Inr kvs \<Rightarrow> Inr (kv # kvs)))"

fun dict_validator :: "pyval \<Rightarrow> error + pyval" where
  "dict_validator (PDict d) = Inr (PDict d)"
| "dict_validator (PDictAny d) = Inr (PDictAny d)"
| "dict_validator (PList xs) =
     (case dict_items xs of Inl e \<Rightarrow> Inl e | Inr kvs \<Rightarrow> Inr (dict_of_pairs kvs))"
| "dict_validator _ = Inl ValidationError"

text \<open>
  A field declared \<open>Union[str, dict]\<close> tries the two types in this order and takes the
  first that accepts the value.
\<close>

definition str_or_dict_validator :: "pyval \<Rightarrow> error + pyval" where
  "str_or_dict_validator v =
     (case str_validator v of
        Inr s \<Rightarrow> Inr (PStr s)
      | Inl e \<Rightarrow> dict_validator v)"

subsection \<open>The registered tools and the executor\<close>

text \<open>
  \<^verbatim>\<open>
  repl = PythonREPL()

  @tool
  def python_repl(code: Annotated[str, "..."]):
      try:
          result = repl.run(code)
      except BaseException as e:
          return f"Failed to execute. Error: {repr(e)}"
      return f"Succesfully executed:\n<fence>python\n{code}\n<fence>\nStdout: {result}"
  \<close>
  where \<open><fence>\<close> is three backquotes. \<open>repl.run\<close> executes the code; it is an external
  collaborator: a parameter of the model, which either raises or returns the captured
  standard output.
\<close>

definition fence :: string where
  "fence = [CHR 0x60, CHR 0x60, CHR 0x60]"

definition python_repl :: "(string \<Rightarrow> exn + string) \<Rightarrow> string \<Rightarrow> string" where
  "python_repl repl_run code =
     (case repl_run code of
        Inl e \<Rightarrow> ''Failed to execute. Error: '' @ py_repr e
      | Inr result \<Rightarrow>
          ''Succesfully executed:'' @ [CHR 0x0A] @ fence @ ''python'' @ [CHR 0x0A] @ code
            @ [CHR 0x0A] @ fence @ [CHR 0x0A] @ ''Stdout: '' @ result)"

text \<open>
  The decorator \<open>@tool\<close> turns the function into a tool object named after it, with the
  one declared argument \<open>code: str\<close>. The tool takes the argument by value (a \<open>str\<close>),
  or a dict that gives it by name: the dict is passed as keyword arguments to the
  validated class of the arguments, which is a \<open>TypeError\<close> when a key is not a string;
  it must have the key \<open>code\<close>, whose value is validated as a \<open>str\<close> field, and other keys
  are ignored. An input that is neither a \<open>str\<close> nor a dict, which no invocation holds, is
  refused.
\<close>

definition python_repl_tool :: "(string \<Rightarrow> exn + string) \<Rightarrow> tool" where
  "python_repl_tool repl_run =
     \<lparr>t_name = ''python_repl'',
      t_invoke = (\<lambda>tool_input.
        case tool_input of
          PStr code \<Rightarrow> Inr (Response (python_repl repl_run code))
        | PDict d \<Rightarrow>
            (case map_of d ''code'' of
               None \<Rightarrow> Inl ValidationError
             | Some v \<Rightarrow>
                 (case str_validator v of
                    Inl e \<Rightarrow> Inl e
                  | Inr code \<Rightarrow> Inr (Response (python_repl repl_run code))))
        | PDictAny d \<Rightarrow> Inl TypeError
        | _ \<Rightarrow> Inl ValidationError)\<rparr>"

text \<open>
  \<open>tools = [tavily_tool, python_repl]\<close>. The search tool is an external collaborator:
  a parameter of the model.
\<close>

definition tools :: "tool \<Rightarrow> (string \<Rightarrow> exn + string) \<Rightarrow> tool list" where
  "tools tavily_tool repl_run = [tavily_tool, python_repl_tool repl_run]"

text \<open>
  \<open>ToolInvocation(tool=..., tool_input=...)\<close>, a validated class of the framework with
  the fields \<open>tool: str\<close> and \<open>tool_input: Union[str, dict]\<close>: it holds the two values as
  their fields' validators give them, and its construction raises when one refuses.
\<close>

record invocation =
  inv_tool :: string
  inv_tool_input :: pyval

definition ToolInvocation :: "pyval \<Rightarrow> pyval \<Rightarrow> error + invocation" where
  "ToolInvocation tool_v tool_input_v =
     (case str_validator tool_v of
        Inl e \<Rightarrow> Inl e
      | Inr t \<Rightarrow>
          (case str_or_dict_validator tool_input_v of
             Inl e \<Rightarrow> Inl e
           | Inr ti \<Rightarrow> Inr \<lparr>inv_tool = t, inv_tool_input = ti\<rparr>))"

text \<open>
  \<open>ToolExecutor(tools).invoke(action)\<close>, the framework's dictionary dispatch:
  \<open>tool_map = {t.name: t for t in tools}\<close> (a later tool of the same name wins); a
  name that is not in the map gives a message and no raise, otherwise the tool is
  invoked on the input and what it returns or raises is passed on.
\<close>

fun join :: "string \<Rightarrow> string list \<Rightarrow> string" where
  "join sep [] = []"
| "join sep [x] = x"
| "join sep (x # y # ys) = x @ sep @ join sep (y # ys)"

definition tool_map :: "tool list \<Rightarrow> string \<Rightarrow> tool option" where
  "tool_map ts = map_of (rev (map (\<lambda>t. (t_name t, t)) ts))"

definition invalid_tool_msg :: "tool list \<Rightarrow> string \<Rightarrow> string" where
  "invalid_tool_msg ts requested =
     requested @ '' is not a valid tool, try one of ['' @ join '', '' (map t_name ts) @ ''].''"

definition tool_executor_invoke :: "tool list \<Rightarrow> invocation \<Rightarrow> error + response" where
  "tool_executor_invoke ts action =
     (case tool_map ts (inv_tool action) of
        None \<Rightarrow> Inr (Response (invalid_tool_msg ts (inv_tool action)))
      | Some t \<Rightarrow> t_invoke t (inv_tool_input action))"

section \<open>The nodes\<close>

text \<open>
  \<^verbatim>\<open>
  def agent_node(state, agent, name):
      result = agent.invoke(state)
      if isinstance(result, FunctionMessage):
          pass
      else:
          result = HumanMessage(**result.dict(exclude={"type", "name"}), name=name)
      return {"messages": [result], "sender": name}
  \<close>
  The agent (prompt and language model) is an external collaborator: a parameter of the
  model, which either raises or returns a message. It is a function of the state; since
  every node execution makes the \<open>messages\<close> list longer, no state occurs twice in a run,
  so this puts no restriction on what the agent answers at each of its turns.
\<close>

definition agent_node :: "AgentState \<Rightarrow> (AgentState \<Rightarrow> error + message) \<Rightarrow> string \<Rightarrow> error + update" where
  "agent_node st agent nm =
     (case agent st of
        Inl e \<Rightarrow> Inl e
      | Inr result \<Rightarrow>
          Inr \<lparr>u_messages =
                 [if msg_class result = FunctionMessage then result
                  else result\<lparr>msg_class := HumanMessage, name := Some nm\<rparr>],
               u_sender = Some nm\<rparr>)"

text \<open>
  \<^verbatim>\<open>
  def tool_node(state):
      messages = state["messages"]
      last_message = messages[-1]
      tool_input = json.loads(
          last_message.additional_kwargs["function_call"]["arguments"]
      )
      # We can pass single-arg inputs by value
      if len(tool_input) == 1 and "__arg1" in tool_input:
          tool_input = next(iter(tool_input.values()))
      tool_name = last_message.additional_kwargs["function_call"]["name"]
      action = ToolInvocation(tool=tool_name, tool_input=tool_input)
      response = tool_executor.invoke(action)
      function_message = FunctionMessage(
          content=f"{tool_name} response: {str(response)}", name=action.tool
      )
      return {"messages": [function_message]}
  \<close>
  The function has no \<open>try\<close>: every raise of a step is the raise of the function.
\<close>

definition single_arg_by_value :: "pyval \<Rightarrow> error + pyval" where
  "single_arg_by_value tool_input =
     (case py_len tool_input of
        Inl e \<Rightarrow> Inl e
      | Inr n \<Rightarrow>
          if n \<noteq> 1 then Inr tool_input
          else
            (case py_contains ''__arg1'' tool_input of
               Inl e \<Rightarrow> Inl e
             | Inr b \<Rightarrow> if b then py_first_value tool_input else Inr tool_input))"

definition function_call_field :: "message \<Rightarrow> string \<Rightarrow> error + pyval" where
  "function_call_field last_message k =
     (case dict_getitem (additional_kwargs last_message) ''function_call'' of
        Inl e \<Rightarrow> Inl e
      | Inr fc \<Rightarrow> py_getitem fc k)"

definition tool_node :: "tool list \<Rightarrow> AgentState \<Rightarrow> error + update" where
  "tool_node ts st =
     (case py_last (messages st) of
        Inl e \<Rightarrow> Inl e
      | Inr last_message \<Rightarrow>
     (case function_call_field last_message ''arguments'' of
        Inl e \<Rightarrow> Inl e
      | Inr arguments \<Rightarrow>
     (case py_json_loads arguments of
        Inl e \<Rightarrow> Inl e
      | Inr decoded \<Rightarrow>
     (case single_arg_by_value decoded of
        Inl e \<Rightarrow> Inl e
      | Inr tool_input \<Rightarrow>
     (case function_call_field last_message ''name'' of
        Inl e \<Rightarrow> Inl e
      | Inr tool_name \<Rightarrow>
     (case ToolInvocation tool_name tool_input of
        Inl e \<Rightarrow> Inl e
      | Inr action \<Rightarrow>
     (case tool_executor_invoke ts action of
        Inl e \<Rightarrow> Inl e
      | Inr response \<Rightarrow>
          Inr \<lparr>u_messages =
                 [\<lparr>msg_class = FunctionMessage,
                   content = inv_tool action @ '' response: '' @ py_str response,
                   additional_kwargs = [],
                   name = Some (inv_tool action)\<rparr>],
               u_sender = None\<rparr>)))))))"

section \<open>The router\<close>

text \<open>
  \<^verbatim>\<open>
  def router(state):
      messages = state["messages"]
      last_message = messages[-1]
      if "function_call" in last_message.additional_kwargs:
          return "call_tool"
      if "FINAL ANSWER" in last_message.content:
          return "end"
      return "continue"
  \<close>
\<close>

definition router :: "AgentState \<Rightarrow> error + string" where
  "router st =
     (case py_last (messages st) of
        Inl e \<Rightarrow> Inl e
      | Inr last_message \<Rightarrow>
          if py_in_dict ''function_call'' (additional_kwargs last_message)
          then Inr ''call_tool''
          else if py_in_str ''FINAL ANSWER'' (content last_message)
          then Inr ''end''
          else Inr ''continue'')"

section \<open>The graph\<close>

text \<open>
  \<open>StateGraph\<close> is the framework's builder: it records the nodes, the conditional edges
  (for a start node, a condition on the state and a mapping from what the condition
  returns to the next node) and the entry point. \<open>END\<close> is the framework's name of the
  end of the graph.
\<close>

definition END :: string where
  "END = ''__end__''"

record state_graph =
  nodes :: "(string \<times> (AgentState \<Rightarrow> error + update)) list"
  branches :: "(string \<times> (AgentState \<Rightarrow> error + string) \<times> (string \<times> string) list) list"
  entry_point :: "string option"

definition StateGraph :: state_graph where
  "StateGraph = \<lparr>nodes = [], branches = [], entry_point = None\<rparr>"

definition add_node ::
  "string \<Rightarrow> (AgentState \<Rightarrow> error + update) \<Rightarrow> state_graph \<Rightarrow> state_graph" where
  "add_node key action w = w\<lparr>nodes := nodes w @ [(key, action)]\<rparr>"

definition add_conditional_edges ::
  "string \<Rightarrow> (AgentState \<Rightarrow> error + string) \<Rightarrow> (string \<times> string) list \<Rightarrow> state_graph
     \<Rightarrow> state_graph" where
  "add_conditional_edges start_key condition mapping w =
     w\<lparr>branches := branches w @ [(start_key, condition, mapping)]\<rparr>"

definition set_entry_point :: "string \<Rightarrow> state_graph \<Rightarrow> state_graph" where
  "set_entry_point key w = w\<lparr>entry_point := Some key\<rparr>"

text \<open>
  \<^verbatim>\<open>
  research_node = functools.partial(agent_node, agent=research_agent, name="assistant")
  chart_node = functools.partial(agent_node, agent=chart_agent, name="Chart Generator")
  \<close>
\<close>

definition research_node :: "(AgentState \<Rightarrow> error + message) \<Rightarrow> AgentState \<Rightarrow> error + update" where
  "research_node research_agent st = agent_node st research_agent ''assistant''"

definition chart_node :: "(AgentState \<Rightarrow> error + message) \<Rightarrow> AgentState \<Rightarrow> error + update" where
  "chart_node chart_agent st = agent_node st chart_agent ''Chart Generator''"

text \<open>The condition of the edges out of \<open>call_tool\<close>: \<open>lambda x: x["sender"]\<close>.\<close>

definition sender_of :: "AgentState \<Rightarrow> error + string" where
  "sender_of x = (case sender x of None \<Rightarrow> Inl (KeyError ''sender'') | Some s \<Rightarrow> Inr s)"

text \<open>
  \<^verbatim>\<open>
  workflow = StateGraph(AgentState)
  workflow.add_node("assistant", research_node)
  workflow.add_node("Chart Generator", chart_node)
  workflow.add_node("call_tool", tool_node)
  workflow.add_conditional_edges(
      "assistant", router,
      {"continue": "Chart Generator", "call_tool": "call_tool", "end": END})
  workflow.add_conditional_edges(
      "Chart Generator", router,
      {"continue": "assistant", "call_tool": "call_tool", "end": END})
  workflow.add_conditional_edges(
      "call_tool", lambda x: x["sender"],
      {"assistant": "assistant", "Chart Generator": "Chart Generator"})
  workflow.set_entry_point("assistant")
  \<close>
  The two agents and the list of tools are the parameters of the model.
\<close>

definition workflow ::
  "(AgentState \<Rightarrow> error + message) \<Rightarrow> (AgentState \<Rightarrow> error + message) \<Rightarrow> tool list \<Rightarrow> state_graph" where
  "workflow research_agent chart_agent ts =
     (let w = StateGraph;
          w = add_node ''assistant'' (research_node research_agent) w;
          w = add_node ''Chart Generator'' (chart_node chart_agent) w;
          w = add_node ''call_tool'' (tool_node ts) w;
          w = add_conditional_edges ''assistant'' router
                [(''continue'', ''Chart Generator''), (''call_tool'', ''call_tool''),
                 (''end'', END)] w;
          w = add_conditional_edges ''Chart Generator'' router
                [(''continue'', ''assistant''), (''call_tool'', ''call_tool''),
                 (''end'', END)] w;
          w = add_conditional_edges ''call_tool'' sender_of
                [(''assistant'', ''assistant''), (''Chart Generator'', ''Chart Generator'')] w;
          w = set_entry_point ''assistant'' w
      in w)"

text \<open>
  The compiled graph, as the framework runs this one (a single node is active at a
  time). One step runs the active node on the state, folds the update it returns into
  the state, evaluates the condition of the node's conditional edges on the new state
  and looks the answer up in the mapping; the result is the next node, or \<open>END\<close>. A
  raise of the node or of the condition, and an answer the mapping does not have, end
  the run with that exception.
\<close>

definition graph_step :: "state_graph \<Rightarrow> string \<Rightarrow> AgentState \<Rightarrow> error + string \<times> AgentState" where
  "graph_step w node st =
     (case map_of (nodes w) node of
        None \<Rightarrow> Inl (KeyError node)
      | Some action \<Rightarrow>
          (case action st of
             Inl e \<Rightarrow> Inl e
           | Inr u \<Rightarrow>
               (case map_of (branches w) node of
                  None \<Rightarrow> Inl ValueError
                | Some (condition, mapping) \<Rightarrow>
                    (case condition (apply_update st u) of
                       Inl e \<Rightarrow> Inl e
                     | Inr answer \<Rightarrow>
                         (case map_of mapping answer of
                            None \<Rightarrow> Inl (KeyError answer)
                          | Some dest \<Rightarrow> Inr (dest, apply_update st u))))))"

text \<open>
  A run from a node: steps until \<open>END\<close>. The framework bounds a run by the
  \<open>recursion_limit\<close> of the call and raises \<open>GraphRecursionError\<close> when the bound is
  used up; the model counts one unit for each node that runs. The run returns the state
  at \<open>END\<close>.
\<close>

fun run :: "state_graph \<Rightarrow> nat \<Rightarrow> string \<Rightarrow> AgentState \<Rightarrow> error + AgentState" where
  "run w 0 node st = Inl GraphRecursionError"
| "run w (Suc recursion_limit) node st =
     (case graph_step w node st of
        Inl e \<Rightarrow> Inl e
      | Inr (dest, st') \<Rightarrow> if dest = END then Inr st' else run w recursion_limit dest st')"

text \<open>
  \<open>graph.stream({"messages": [...]}, {"recursion_limit": 150})\<close>: the run from the entry
  point on the input, which has no \<open>sender\<close>.
\<close>

definition graph_invoke :: "state_graph \<Rightarrow> nat \<Rightarrow> message list \<Rightarrow> error + AgentState" where
  "graph_invoke w recursion_limit input_messages =
     (case entry_point w of
        None \<Rightarrow> Inl ValueError
      | Some entry \<Rightarrow> run w recursion_limit entry \<lparr>messages = input_messages, sender = None\<rparr>)"

text \<open>
  The first \<open>k\<close> steps of a run, with the names of the nodes that ran, in order: from
  the trace so far, the active node and the state to the trace, active node and state
  after \<open>k\<close> more steps.
\<close>

fun graph_steps ::
  "state_graph \<Rightarrow> nat \<Rightarrow> string list \<times> string \<times> AgentState \<Rightarrow> error + string list \<times> string \<times> AgentState" where
  "graph_steps w 0 cfg = Inr cfg"
| "graph_steps w (Suc k) (tr, node, st) =
     (case graph_step w node st of
        Inl e \<Rightarrow> Inl e
      | Inr (dest, st') \<Rightarrow> graph_steps w k (tr @ [node], dest, st'))"

text \<open>
  The agent nodes of a trace: the nodes that ran, without the runs of the tool node.
\<close>

definition agents_of :: "string list \<Rightarrow> string list" where
  "agents_of tr = filter (\<lambda>n. n \<noteq> ''call_tool'') tr"

section \<open>Example values\<close>

text \<open>
  The question of the notebook's second invocation, the two shapes of a model reply (a
  text, a function call), and stand-ins for the external collaborators: a search tool
  that finds nothing and one that answers with the query it was given (by value, or by
  name as \<open>query\<close>), a \<open>repl.run\<close> that can run one program and fails on every other and
  one that runs every program and prints nothing, a research agent that restates the data, and a chart agent that first asks for the
  program to be run and gives the final answer once the tool has answered.
\<close>

definition question :: message where
  "question =
     \<lparr>msg_class = HumanMessage,
      content = ''Give me the sum of two variables, x and y, x = 333 and y = 444. Once you code it up, finish.'',
      additional_kwargs = [], name = None\<rparr>"

definition text_reply :: "string \<Rightarrow> message" where
  "text_reply s = \<lparr>msg_class = AIMessage, content = s, additional_kwargs = [], name = None\<rparr>"

definition function_call_reply :: "string \<Rightarrow> string \<Rightarrow> message" where
  "function_call_reply nm arguments =
     \<lparr>msg_class = AIMessage, content = [],
      additional_kwargs =
        [(''function_call'', PDict [(''arguments'', PStr arguments), (''name'', PStr nm)])],
      name = None\<rparr>"

definition example_search :: tool where
  "example_search =
     \<lparr>t_name = ''tavily_search_results_json'', t_invoke = (\<lambda>query. Inr (Response ''[]''))\<rparr>"

definition example_lookup :: tool where
  "example_lookup =
     \<lparr>t_name = ''tavily_search_results_json'',
      t_invoke = (\<lambda>tool_input.
        case tool_input of
          PStr query \<Rightarrow> Inr (Response (''results for '' @ query))
        | PDict d \<Rightarrow>
            (case map_of d ''query'' of
               None \<Rightarrow> Inl ValidationError
             | Some v \<Rightarrow>
                 (case str_validator v of
                    Inl e \<Rightarrow> Inl e
                  | Inr query \<Rightarrow> Inr (Response (''results for '' @ query))))
        | _ \<Rightarrow> Inl ValidationError)\<rparr>"

definition example_repl :: "string \<Rightarrow> exn + string" where
  "example_repl code =
     (if code = ''print(333 + 444)'' then Inr (''777'' @ [CHR 0x0A])
      else Inl (Exn ''SyntaxError()''))"

definition example_quiet_repl :: "string \<Rightarrow> exn + string" where
  "example_quiet_repl code = Inr []"

definition example_researcher :: "AgentState \<Rightarrow> error + message" where
  "example_researcher st = Inr (text_reply ''x is 333 and y is 444.'')"

definition example_chart_agent :: "AgentState \<Rightarrow> error + message" where
  "example_chart_agent st =
     (case py_last (messages st) of
        Inl e \<Rightarrow> Inl e
      | Inr m \<Rightarrow>
          if msg_class m = FunctionMessage then Inr (text_reply ''FINAL ANSWER: 777'')
          else Inr (function_call_reply ''python_repl'' ''{\"code\": \"print(333 + 444)\"}''))"

definition example_workflow :: state_graph where
  "example_workflow =
     workflow example_researcher example_chart_agent (tools example_search example_repl)"

text \<open>The messages that the run of the example appends, in order.\<close>

definition example_msg1 :: message where
  "example_msg1 =
     \<lparr>msg_class = HumanMessage, content = ''x is 333 and y is 444.'',
      additional_kwargs = [], name = Some ''assistant''\<rparr>"

definition example_msg2 :: message where
  "example_msg2 =
     \<lparr>msg_class = HumanMessage, content = [],
      additional_kwargs =
        [(''function_call'',
          PDict [(''arguments'', PStr ''{\"code\": \"print(333 + 444)\"}''),
                 (''name'', PStr ''python_repl'')])],
      name = Some ''Chart Generator''\<rparr>"

definition example_msg3 :: message where
  "example_msg3 =
     \<lparr>msg_class = FunctionMessage,
      content = ''python_repl response: Succesfully executed:'' @ [CHR 0x0A]
        @ [CHR 0x60, CHR 0x60, CHR 0x60] @ ''python'' @ [CHR 0x0A] @ ''print(333 + 444)'' @ [CHR 0x0A]
        @ [CHR 0x60, CHR 0x60, CHR 0x60] @ [CHR 0x0A] @ ''Stdout: 777'' @ [CHR 0x0A],
      additional_kwargs = [], name = Some ''python_repl''\<rparr>"

definition example_msg4 :: message where
  "example_msg4 =
     \<lparr>msg_class = HumanMessage, content = ''FINAL ANSWER: 777'',
      additional_kwargs = [], name = Some ''Chart Generator''\<rparr>"

text \<open>The states of that run: the input, and the state after each of its four steps.\<close>

definition example_st0 :: AgentState where
  "example_st0 = \<lparr>messages = [question], sender = None\<rparr>"

definition example_st1 :: AgentState where
  "example_st1 = \<lparr>messages = [question, example_msg1], sender = Some ''assistant''\<rparr>"

definition example_st2 :: AgentState where
  "example_st2 =
     \<lparr>messages = [question, example_msg1, example_msg2], sender = Some ''Chart Generator''\<rparr>"

definition example_st3 :: AgentState where
  "example_st3 =
     \<lparr>messages = [question, example_msg1, example_msg2, example_msg3],
      sender = Some ''Chart Generator''\<rparr>"

definition example_st4 :: AgentState where
  "example_st4 =
     \<lparr>messages = [question, example_msg1, example_msg2, example_msg3, example_msg4],
      sender = Some ''Chart Generator''\<rparr>"

text \<open>
  A state whose last message asks for \<open>python_repl\<close> with the program itself as the
  arguments, not a JSON text; one whose arguments are a JSON object with a program on
  which the example \<open>repl.run\<close> fails; and one whose arguments were cut off before the
  end of the JSON text.
\<close>

definition example_bad_call :: AgentState where
  "example_bad_call =
     \<lparr>messages =
        [question, example_msg1,
         \<lparr>msg_class = HumanMessage, content = [],
          additional_kwargs =
            [(''function_call'',
              PDict [(''arguments'', PStr ''print(333 + 444)''),
                     (''name'', PStr ''python_repl'')])],
          name = Some ''Chart Generator''\<rparr>],
      sender = Some ''Chart Generator''\<rparr>"

definition example_failing_call :: AgentState where
  "example_failing_call =
     \<lparr>messages =
        [question, example_msg1,
         \<lparr>msg_class = HumanMessage, content = [],
          additional_kwargs =
            [(''function_call'',
              PDict [(''arguments'', PStr ''{\"code\": \"print(x +\"}''),
                     (''name'', PStr ''python_repl'')])],
          name = Some ''Chart Generator''\<rparr>],
      sender = Some ''Chart Generator''\<rparr>"

definition example_truncated_call :: AgentState where
  "example_truncated_call =
     \<lparr>messages =
        [question, example_msg1,
         \<lparr>msg_class = HumanMessage, content = [],
          additional_kwargs =
            [(''function_call'',
              PDict [(''arguments'', PStr ''{\"code\": \"print(333 + 444)''),
                     (''name'', PStr ''python_repl'')])],
          name = Some ''Chart Generator''\<rparr>],
      sender = Some ''Chart Generator''\<rparr>"

section \<open>Properties of the primitives\<close>

lemma py_in_str_sublist: "py_in_str sub s \<longleftrightarrow> sublist sub s"
  by (induction s) (simp_all add: sublist_Cons_right)

lemma py_in_dict_iff: "py_in_dict k d \<longleftrightarrow> map_of d k \<noteq> None"
  by (simp add: py_in_dict_def map_of_eq_None_iff)

section \<open>Properties of the decoder\<close>

text \<open>
  A repeated key of a JSON object leaves one entry: the dict has distinct keys.
\<close>

lemma py_dict_distinct_aux:
  "distinct (map fst d) \<Longrightarrow>
   distinct (map fst (foldl (\<lambda>d (k, v). AList.update k v d) d pairs))"
  by (induction pairs arbitrary: d) (auto simp: distinct_update)

lemma py_dict_distinct: "distinct (map fst (py_dict pairs))"
  by (simp add: py_dict_def py_dict_distinct_aux)

text \<open>
  Every call of the decoder that returns a value has consumed at least one character,
  so the bound that \<open>json_loads\<close> supplies is never used up: the equations for 0 do not
  decide any of its results.
\<close>

lemma skip_ws_length: "length (skip_ws s) \<le> length s"
  by (simp add: skip_ws_def length_dropWhile_le)

lemma skip_ws_Cons_length: "skip_ws s = c # cs \<Longrightarrow> length cs < length s"
  using skip_ws_length [of s] by simp

lemma scanstring_shorter: "scanstring s = Inr (str, r) \<Longrightarrow> length r < length s"
proof (induction s arbitrary: str r rule: scanstring.induct)
  case 1
  then show ?case by simp
next
  case (2 c cs)
  show ?case
  proof (cases "c = CHR 0x22")
    case True
    with "2.prems" show ?thesis by simp
  next
    case nq: False
    show ?thesis
    proof (cases "c = CHR 0x5C")
      case bs: True
      show ?thesis
      proof (cases cs)
        case Nil
        with "2.prems" nq bs show ?thesis by simp
      next
        case (Cons esc cs')
        show ?thesis
        proof (cases "esc = CHR ''u''")
          case True
          with "2.prems" nq bs Cons obtain chars r0 str0 where
            u: "unicode_escape cs' = Some (chars, r0)" and
            s: "scanstring r0 = Inr (str0, r)"
            by (auto split: option.splits sum.splits)
          from "2.IH"(1) [OF nq bs Cons True u refl s] unicode_escape_length [OF u] Cons
          show ?thesis by simp
        next
          case False
          with "2.prems" nq bs Cons obtain ch str0 where
            b: "BACKSLASH esc = Some ch" and s: "scanstring cs' = Inr (str0, r)"
            by (auto split: option.splits sum.splits)
          from "2.IH"(2) [OF nq bs Cons False b s] Cons show ?thesis by simp
        qed
      qed
    next
      case nbs: False
      with "2.prems" nq obtain str0 where
        lt: "\<not> (of_char c :: nat) < 0x20" and s: "scanstring cs = Inr (str0, r)"
        by (auto split: if_splits sum.splits)
      from "2.IH"(3) [OF nq nbs lt s] show ?thesis by simp
    qed
  qed
qed

lemma dropWhile_le_Suc:
  "length (dropWhile P xs) \<le> Suc (length xs)"
  "length (dropWhile P xs) \<le> Suc (Suc (length xs))"
  using length_dropWhile_le [of P xs] by simp_all

lemma match_integer_shorter: "match_integer s = Some (lx, r) \<Longrightarrow> length r < length s"
  by (auto simp: match_integer_def Let_def less_Suc_eq_le length_dropWhile_le dropWhile_le_Suc
      split: list.splits if_splits prod.splits)

lemma match_frac_shorter: "match_frac s = (lx, r) \<Longrightarrow> length r \<le> length s"
  by (auto simp: match_frac_def length_dropWhile_le dropWhile_le_Suc
      split: list.splits if_splits)

lemma match_exp_shorter: "match_exp s = (lx, r) \<Longrightarrow> length r \<le> length s"
  by (auto simp: match_exp_def Let_def length_dropWhile_le dropWhile_le_Suc
      split: list.splits if_splits prod.splits)

lemma match_number_shorter:
  "match_number s = Some (Inr (v, r)) \<Longrightarrow> length r < length s"
proof -
  assume a: "match_number s = Some (Inr (v, r))"
  then obtain lx r1 where i: "match_integer s = Some (lx, r1)"
    by (auto simp: match_number_def split: option.splits)
  obtain f r2 where f: "match_frac r1 = (f, r2)" by (cases "match_frac r1")
  obtain e r3 where e: "match_exp r2 = (e, r3)" by (cases "match_exp r2")
  from a i f e have "r = r3"
    by (auto simp: match_number_def split: if_splits sum.splits)
  with match_integer_shorter [OF i] match_frac_shorter [OF f] match_exp_shorter [OF e]
  show ?thesis by simp
qed

lemma scanstring_error: "scanstring s = Inl e \<Longrightarrow> e = JSONDecodeError"
proof (induction s arbitrary: e rule: scanstring.induct)
  case 1
  then show ?case by simp
next
  case (2 c cs)
  show ?case
  proof (cases "c = CHR 0x22")
    case True
    with "2.prems" show ?thesis by simp
  next
    case nq: False
    show ?thesis
    proof (cases "c = CHR 0x5C")
      case bs: True
      show ?thesis
      proof (cases cs)
        case Nil
        with "2.prems" nq bs show ?thesis by simp
      next
        case (Cons esc cs')
        show ?thesis
        proof (cases "esc = CHR ''u''")
          case True
          show ?thesis
          proof (cases "unicode_escape cs'")
            case None
            with "2.prems" nq bs Cons True show ?thesis by simp
          next
            case (Some p)
            obtain chars r0 where p: "p = (chars, r0)" by (cases p)
            from "2.prems" nq bs Cons True Some p
            have "scanstring r0 = Inl e" by (auto split: sum.splits)
            from "2.IH"(1) [OF nq bs Cons True Some [unfolded p] refl this]
            show ?thesis .
          qed
        next
          case False
          show ?thesis
          proof (cases "BACKSLASH esc")
            case None
            with "2.prems" nq bs Cons False show ?thesis by simp
          next
            case (Some ch)
            with "2.prems" nq bs Cons False
            have "scanstring cs' = Inl e" by (auto split: sum.splits)
            from "2.IH"(2) [OF nq bs Cons False Some this] show ?thesis .
          qed
        qed
      qed
    next
      case nbs: False
      show ?thesis
      proof (cases "(of_char c :: nat) < 0x20")
        case True
        with "2.prems" nq nbs show ?thesis by simp
      next
        case False
        with "2.prems" nq nbs have "scanstring cs = Inl e" by (auto split: sum.splits)
        from "2.IH"(3) [OF nq nbs False this] show ?thesis .
      qed
    qed
  qed
qed

lemma match_number_error: "match_number s = Some (Inl e) \<Longrightarrow> e = ValueError"
  by (auto simp: match_number_def int_of_lexeme_def Let_def
      split: option.splits prod.splits if_splits sum.splits list.splits)

lemma prefix_drop_shorter: "prefix p s \<Longrightarrow> 0 < length p \<Longrightarrow> length (drop (length p) s) < length s"
  by (auto simp: prefix_def)

lemma scan_once_Suc:
  assumes a: "scan_once (Suc n) s = Inr (v, r)"
    and O': "\<forall>s ps v r. JSONObject n s ps = Inr (v, r) \<longrightarrow> length r < length s"
    and A': "\<forall>s vs v r. JSONArray n s vs = Inr (v, r) \<longrightarrow> length r < length s"
  shows "length r < length s"
proof -
  from O' have O: "\<And>s ps v r. JSONObject n s ps = Inr (v, r) \<Longrightarrow> length r < length s"
    by blast
  from A' have A: "\<And>s vs v r. JSONArray n s vs = Inr (v, r) \<Longrightarrow> length r < length s"
    by blast
  from a obtain c cs where s: "s = c # cs" by (cases s) auto
  consider (str) "c = CHR 0x22" | (obj) "c = CHR ''{''" | (arr) "c = CHR ''[''"
    | (other) "c \<noteq> CHR 0x22" "c \<noteq> CHR ''{''" "c \<noteq> CHR ''[''" by blast
  then show ?thesis
  proof cases
    case str
    with a s obtain str0 where "scanstring cs = Inr (str0, r)"
      by (auto split: sum.splits)
    from scanstring_shorter [OF this] s show ?thesis by simp
  next
    case obj
    with a s obtain d ds where w: "skip_ws cs = d # ds"
      by (cases "skip_ws cs") auto
    from skip_ws_Cons_length [OF w] have l: "length ds < length cs" .
    from a s obj w have "(d = CHR ''}'' \<and> r = ds) \<or> (d = CHR 0x22 \<and> JSONObject n ds [] = Inr (v, r))"
      by (auto split: if_splits)
    with l O s show ?thesis by fastforce
  next
    case arr
    with a s obtain d ds where w: "skip_ws cs = d # ds"
      by (cases "skip_ws cs") auto
    from skip_ws_Cons_length [OF w] have l: "length ds < length cs" .
    from a s arr w have "(d = CHR '']'' \<and> r = ds) \<or> JSONArray n (d # ds) [] = Inr (v, r)"
      by (auto split: if_splits)
    with l A [of "d # ds" "[]" v r] s show ?thesis by fastforce
  next
    case other
    with a s have
      "(prefix ''null'' s \<and> r = drop 4 s) \<or> (prefix ''true'' s \<and> r = drop 4 s)
       \<or> (prefix ''false'' s \<and> r = drop 5 s) \<or> match_number s = Some (Inr (v, r))
       \<or> (prefix ''NaN'' s \<and> r = drop 3 s) \<or> (prefix ''Infinity'' s \<and> r = drop 8 s)
       \<or> (prefix ''-Infinity'' s \<and> r = drop 9 s)"
      by (auto split: if_splits option.splits)
    then show ?thesis
      using match_number_shorter [of s v r]
        prefix_drop_shorter [of "''null''" s] prefix_drop_shorter [of "''true''" s]
        prefix_drop_shorter [of "''false''" s] prefix_drop_shorter [of "''NaN''" s]
        prefix_drop_shorter [of "''Infinity''" s] prefix_drop_shorter [of "''-Infinity''" s]
      by auto
  qed
qed

lemma JSONArray_Suc:
  assumes a: "JSONArray (Suc n) s vs = Inr (v, r)"
    and S': "\<forall>s v r. scan_once n s = Inr (v, r) \<longrightarrow> length r < length s"
    and A': "\<forall>s vs v r. JSONArray n s vs = Inr (v, r) \<longrightarrow> length r < length s"
  shows "length r < length s"
proof -
  from S' have S: "\<And>s v r. scan_once n s = Inr (v, r) \<Longrightarrow> length r < length s"
    by blast
  from A' have A: "\<And>s vs v r. JSONArray n s vs = Inr (v, r) \<Longrightarrow> length r < length s"
    by blast
  from a obtain v0 r0 where e: "scan_once n s = Inr (v0, r0)"
    by (auto split: sum.splits)
  from a e obtain d ds where w: "skip_ws r0 = d # ds"
    by (cases "skip_ws r0") auto
  from S [OF e] skip_ws_Cons_length [OF w] have l: "length ds < length s" by simp
  from a e w have "(d = CHR '']'' \<and> r = ds)
      \<or> (d = CHR '','' \<and> JSONArray n (skip_ws ds) (vs @ [v0]) = Inr (v, r))"
    by (auto split: if_splits)
  then show ?thesis
  proof
    assume "d = CHR '']'' \<and> r = ds"
    with l show ?thesis by simp
  next
    assume "d = CHR '','' \<and> JSONArray n (skip_ws ds) (vs @ [v0]) = Inr (v, r)"
    then have "length r < length (skip_ws ds)" using A by blast
    with skip_ws_length [of ds] l show ?thesis by simp
  qed
qed

lemma JSONObject_Suc:
  assumes a: "JSONObject (Suc n) s ps = Inr (v, r)"
    and S': "\<forall>s v r. scan_once n s = Inr (v, r) \<longrightarrow> length r < length s"
    and O': "\<forall>s ps v r. JSONObject n s ps = Inr (v, r) \<longrightarrow> length r < length s"
  shows "length r < length s"
proof -
  from S' have S: "\<And>s v r. scan_once n s = Inr (v, r) \<Longrightarrow> length r < length s"
    by blast
  from O' have O: "\<And>s ps v r. JSONObject n s ps = Inr (v, r) \<Longrightarrow> length r < length s"
    by blast
  from a obtain key r0 where k: "scanstring s = Inr (key, r0)"
    by (auto split: sum.splits)
  from a k obtain c cs where w: "skip_ws r0 = c # cs"
    by (cases "skip_ws r0") auto
  from a k w have c: "c = CHR '':''" by (auto split: if_splits)
  from a k w c obtain v0 r1 where e: "scan_once n (skip_ws cs) = Inr (v0, r1)"
    by (auto split: sum.splits)
  from a k w c e obtain d ds where w2: "skip_ws r1 = d # ds"
    by (cases "skip_ws r1") auto
  from scanstring_shorter [OF k] skip_ws_Cons_length [OF w] S [OF e] skip_ws_length [of cs]
    skip_ws_Cons_length [OF w2]
  have l: "length ds < length s" by simp
  from a k w c e w2 have "(d = CHR ''}'' \<and> r = ds)
      \<or> (d = CHR '','' \<and> (\<exists>qs. skip_ws ds = CHR 0x22 # qs
            \<and> JSONObject n qs (ps @ [(key, v0)]) = Inr (v, r)))"
    by (auto split: if_splits list.splits)
  then show ?thesis
  proof
    assume "d = CHR ''}'' \<and> r = ds"
    with l show ?thesis by simp
  next
    assume "d = CHR '','' \<and> (\<exists>qs. skip_ws ds = CHR 0x22 # qs
            \<and> JSONObject n qs (ps @ [(key, v0)]) = Inr (v, r))"
    then obtain qs where q: "skip_ws ds = CHR 0x22 # qs"
      and j: "JSONObject n qs (ps @ [(key, v0)]) = Inr (v, r)" by blast
    from O [OF j] skip_ws_Cons_length [OF q] l show ?thesis by simp
  qed
qed

lemma decoder_shorter:
  "(\<forall>s v r. scan_once n s = Inr (v, r) \<longrightarrow> length r < length s)
   \<and> (\<forall>s vs v r. JSONArray n s vs = Inr (v, r) \<longrightarrow> length r < length s)
   \<and> (\<forall>s ps v r. JSONObject n s ps = Inr (v, r) \<longrightarrow> length r < length s)"
proof (induction n)
  case 0
  show ?case by simp
next
  case (Suc n)
  then have S: "\<forall>s v r. scan_once n s = Inr (v, r) \<longrightarrow> length r < length s"
    and A: "\<forall>s vs v r. JSONArray n s vs = Inr (v, r) \<longrightarrow> length r < length s"
    and O: "\<forall>s ps v r. JSONObject n s ps = Inr (v, r) \<longrightarrow> length r < length s"
    by blast+
  have "length r < length s" if "scan_once (Suc n) s = Inr (v, r)" for s v r
    using that O A by (rule scan_once_Suc)
  moreover have "length r < length s" if "JSONArray (Suc n) s vs = Inr (v, r)" for s vs v r
    using that S A by (rule JSONArray_Suc)
  moreover have "length r < length s" if "JSONObject (Suc n) s ps = Inr (v, r)" for s ps v r
    using that S O by (rule JSONObject_Suc)
  ultimately show ?case by blast
qed

lemma scan_once_shorter: "scan_once n s = Inr (v, r) \<Longrightarrow> length r < length s"
  using decoder_shorter by blast

lemma scan_once_fuel_Suc:
  assumes l: "2 * length s + 1 \<le> Suc n"
    and O: "\<forall>s ps. 2 * length s + 2 \<le> n \<longrightarrow> JSONObject n s ps \<noteq> Inl RecursionError"
    and A: "\<forall>s vs. 2 * length s + 2 \<le> n \<longrightarrow> JSONArray n s vs \<noteq> Inl RecursionError"
  shows "scan_once (Suc n) s \<noteq> Inl RecursionError"
proof
  assume a: "scan_once (Suc n) s = Inl RecursionError"
  then obtain c cs where s: "s = c # cs" by (cases s) auto
  consider (str) "c = CHR 0x22" | (obj) "c = CHR ''{''" | (arr) "c = CHR ''[''"
    | (other) "c \<noteq> CHR 0x22" "c \<noteq> CHR ''{''" "c \<noteq> CHR ''[''" by blast
  then show False
  proof cases
    case str
    with a s have "scanstring cs = Inl RecursionError"
      by (auto split: sum.splits)
    from scanstring_error [OF this] show False by simp
  next
    case obj
    with a s obtain d ds where w: "skip_ws cs = d # ds"
      by (cases "skip_ws cs") auto
    from a s obj w have j: "JSONObject n ds [] = Inl RecursionError"
      by (auto split: if_splits)
    from skip_ws_Cons_length [OF w] l s have "2 * length ds + 2 \<le> n" by simp
    with O j show False by blast
  next
    case arr
    with a s obtain d ds where w: "skip_ws cs = d # ds"
      by (cases "skip_ws cs") auto
    from a s arr w have j: "JSONArray n (d # ds) [] = Inl RecursionError"
      by (auto split: if_splits)
    from skip_ws_Cons_length [OF w] l s have "2 * length (d # ds) + 2 \<le> n" by simp
    with A j show False by blast
  next
    case other
    with a s have "match_number s = Some (Inl RecursionError)"
      by (auto split: if_splits option.splits)
    from match_number_error [OF this] show False by simp
  qed
qed

lemma JSONArray_fuel_Suc:
  assumes l: "2 * length s + 2 \<le> Suc n"
    and S: "\<forall>s. 2 * length s + 1 \<le> n \<longrightarrow> scan_once n s \<noteq> Inl RecursionError"
    and A: "\<forall>s vs. 2 * length s + 2 \<le> n \<longrightarrow> JSONArray n s vs \<noteq> Inl RecursionError"
  shows "JSONArray (Suc n) s vs \<noteq> Inl RecursionError"
proof
  assume a: "JSONArray (Suc n) s vs = Inl RecursionError"
  from l S have ns: "scan_once n s \<noteq> Inl RecursionError" by simp
  with a obtain v0 r0 where e: "scan_once n s = Inr (v0, r0)"
    by (auto split: sum.splits)
  from a e obtain d ds where w: "skip_ws r0 = d # ds"
    by (cases "skip_ws r0") auto
  from a e w have j: "JSONArray n (skip_ws ds) (vs @ [v0]) = Inl RecursionError"
    by (auto split: if_splits)
  from scan_once_shorter [OF e] skip_ws_Cons_length [OF w] skip_ws_length [of ds] l
  have "2 * length (skip_ws ds) + 2 \<le> n" by simp
  with A j show False by blast
qed

lemma JSONObject_fuel_Suc:
  assumes l: "2 * length s + 2 \<le> Suc n"
    and S: "\<forall>s. 2 * length s + 1 \<le> n \<longrightarrow> scan_once n s \<noteq> Inl RecursionError"
    and O: "\<forall>s ps. 2 * length s + 2 \<le> n \<longrightarrow> JSONObject n s ps \<noteq> Inl RecursionError"
  shows "JSONObject (Suc n) s ps \<noteq> Inl RecursionError"
proof
  assume a: "JSONObject (Suc n) s ps = Inl RecursionError"
  have "scanstring s \<noteq> Inl RecursionError" using scanstring_error by fastforce
  with a obtain key r0 where k: "scanstring s = Inr (key, r0)"
    by (auto split: sum.splits)
  from a k obtain c cs where w: "skip_ws r0 = c # cs"
    by (cases "skip_ws r0") auto
  from a k w have c: "c = CHR '':''" by (auto split: if_splits)
  from scanstring_shorter [OF k] skip_ws_Cons_length [OF w] skip_ws_length [of cs] l
  have l1: "2 * length (skip_ws cs) + 1 \<le> n" by simp
  with S have "scan_once n (skip_ws cs) \<noteq> Inl RecursionError" by blast
  with a k w c obtain v0 r1 where e: "scan_once n (skip_ws cs) = Inr (v0, r1)"
    by (auto split: sum.splits)
  from a k w c e obtain d ds where w2: "skip_ws r1 = d # ds"
    by (cases "skip_ws r1") auto
  from a k w c e w2 obtain qs where q: "skip_ws ds = CHR 0x22 # qs"
    and j: "JSONObject n qs (ps @ [(key, v0)]) = Inl RecursionError"
    by (auto split: if_splits list.splits)
  from scan_once_shorter [OF e] skip_ws_Cons_length [OF w2] skip_ws_Cons_length [OF q] l1
  have "2 * length qs + 2 \<le> n" by simp
  with O j show False by blast
qed

lemma decoder_fuel:
  "(\<forall>s. 2 * length s + 1 \<le> n \<longrightarrow> scan_once n s \<noteq> Inl RecursionError)
   \<and> (\<forall>s vs. 2 * length s + 2 \<le> n \<longrightarrow> JSONArray n s vs \<noteq> Inl RecursionError)
   \<and> (\<forall>s ps. 2 * length s + 2 \<le> n \<longrightarrow> JSONObject n s ps \<noteq> Inl RecursionError)"
proof (induction n)
  case 0
  show ?case by simp
next
  case (Suc n)
  then have S: "\<forall>s. 2 * length s + 1 \<le> n \<longrightarrow> scan_once n s \<noteq> Inl RecursionError"
    and A: "\<forall>s vs. 2 * length s + 2 \<le> n \<longrightarrow> JSONArray n s vs \<noteq> Inl RecursionError"
    and O: "\<forall>s ps. 2 * length s + 2 \<le> n \<longrightarrow> JSONObject n s ps \<noteq> Inl RecursionError"
    by blast+
  have "scan_once (Suc n) s \<noteq> Inl RecursionError" if "2 * length s + 1 \<le> Suc n" for s
    using that O A by (rule scan_once_fuel_Suc)
  moreover have "JSONArray (Suc n) s vs \<noteq> Inl RecursionError"
    if "2 * length s + 2 \<le> Suc n" for s vs
    using that S A by (rule JSONArray_fuel_Suc)
  moreover have "JSONObject (Suc n) s ps \<noteq> Inl RecursionError"
    if "2 * length s + 2 \<le> Suc n" for s ps
    using that S O by (rule JSONObject_fuel_Suc)
  ultimately show ?case by blast
qed

lemma scanstring_unescaped:
  "\<forall>c \<in> set str. unescaped c \<Longrightarrow> scanstring (str @ CHR 0x22 # r) = Inr (str, r)"
  by (induction str) (simp_all add: unescaped_def)

lemma json_loads_fuel: "json_loads s \<noteq> Inl RecursionError"
proof -
  define n where "n = 2 * length s + 2"
  have "2 * length (skip_ws s) + 1 \<le> n"
    using skip_ws_length [of s] by (simp add: n_def)
  with decoder_fuel [of n]
  have "scan_once n (skip_ws s) \<noteq> Inl RecursionError" by blast
  then show ?thesis
    unfolding json_loads_def n_def [symmetric]
    by (auto split: sum.splits)
qed

section \<open>Properties of the tool node\<close>

lemma ToolInvocation_str [simp]:
  "ToolInvocation (PStr t) (PStr x) = Inr \<lparr>inv_tool = t, inv_tool_input = PStr x\<rparr>"
  by (simp add: ToolInvocation_def str_or_dict_validator_def)

lemma ToolInvocation_dict [simp]:
  "ToolInvocation (PStr t) (PDict d) = Inr \<lparr>inv_tool = t, inv_tool_input = PDict d\<rparr>"
  by (simp add: ToolInvocation_def str_or_dict_validator_def)

lemma tool_map_distinct:
  "distinct (map t_name ts) \<Longrightarrow> t \<in> set ts \<Longrightarrow> tool_map ts (t_name t) = Some t"
proof -
  assume d: "distinct (map t_name ts)" and t: "t \<in> set ts"
  have "distinct (map fst (rev (map (\<lambda>t. (t_name t, t)) ts)))"
    using d by (simp add: rev_map [symmetric] comp_def)
  moreover have "(t_name t, t) \<in> set (rev (map (\<lambda>t. (t_name t, t)) ts))"
    using t by auto
  ultimately show ?thesis unfolding tool_map_def by (rule map_of_is_SomeI)
qed

lemma tools_distinct:
  "t_name tavily_tool \<noteq> ''python_repl'' \<Longrightarrow> distinct (map t_name (tools tavily_tool repl_run))"
  by (simp add: tools_def python_repl_tool_def)

lemma tool_node_well_formed:
  assumes "messages st \<noteq> []"
    and "map_of (additional_kwargs (last (messages st))) ''function_call'' = Some (PDict fc)"
    and "map_of fc ''name'' = Some (PStr tool_name)"
    and "map_of fc ''arguments'' = Some (PStr arguments)"
  shows "tool_node ts st =
     (case json_loads arguments of
        Inl e \<Rightarrow> Inl e
      | Inr decoded \<Rightarrow>
     (case single_arg_by_value decoded of
        Inl e \<Rightarrow> Inl e
      | Inr tool_input \<Rightarrow>
     (case ToolInvocation (PStr tool_name) tool_input of
        Inl e \<Rightarrow> Inl e
      | Inr action \<Rightarrow>
     (case tool_executor_invoke ts action of
        Inl e \<Rightarrow> Inl e
      | Inr response \<Rightarrow>
          Inr \<lparr>u_messages =
                 [\<lparr>msg_class = FunctionMessage,
                   content = inv_tool action @ '' response: '' @ py_str response,
                   additional_kwargs = [],
                   name = Some (inv_tool action)\<rparr>],
               u_sender = None\<rparr>))))"
  using assms
  by (simp add: tool_node_def py_last_def function_call_field_def dict_getitem_def
      split: sum.splits)

lemma single_arg_by_value_dict:
  "single_arg_by_value (PDict obj) =
     Inr (if length obj = 1 \<and> ''__arg1'' \<in> fst ` set obj then snd (hd obj) else PDict obj)"
  by (cases obj) (auto simp: single_arg_by_value_def py_in_dict_def)

lemma json_loads_code:
  "json_loads ''{\"code\": \"print(333 + 444)\"}'' = Inr (PDict [(''code'', PStr ''print(333 + 444)'')])"
  by code_simp

lemma json_loads_raw_code: "json_loads ''print(333 + 444)'' = Inl JSONDecodeError"
  by code_simp

lemma json_loads_failing_code:
  "json_loads ''{\"code\": \"print(x +\"}'' = Inr (PDict [(''code'', PStr ''print(x +'')])"
  by code_simp

lemma python_repl_dispatch:
  assumes "t_name tavily_tool \<noteq> ''python_repl''"
    and "tool_input = PStr code \<or> (\<exists>d. tool_input = PDict d \<and> map_of d ''code'' = Some (PStr code))"
  shows "tool_executor_invoke (tools tavily_tool repl_run)
           \<lparr>inv_tool = ''python_repl'', inv_tool_input = tool_input\<rparr> =
         Inr (Response (python_repl repl_run code))"
proof -
  have "python_repl_tool repl_run \<in> set (tools tavily_tool repl_run)"
    by (simp add: tools_def)
  from tool_map_distinct [OF tools_distinct [OF assms(1)] this]
  have "tool_map (tools tavily_tool repl_run) ''python_repl'' = Some (python_repl_tool repl_run)"
    by (simp add: python_repl_tool_def)
  with assms(2) show ?thesis
    by (auto simp: tool_executor_invoke_def python_repl_tool_def)
qed

section \<open>Properties of the graph\<close>

lemma workflow_nodes:
  "nodes (workflow ra ca ts) =
     [(''assistant'', research_node ra), (''Chart Generator'', chart_node ca),
      (''call_tool'', tool_node ts)]"
  by (simp add: workflow_def StateGraph_def add_node_def add_conditional_edges_def
      set_entry_point_def)

lemma workflow_branches:
  "branches (workflow ra ca ts) =
     [(''assistant'', router,
         [(''continue'', ''Chart Generator''), (''call_tool'', ''call_tool''), (''end'', END)]),
      (''Chart Generator'', router,
         [(''continue'', ''assistant''), (''call_tool'', ''call_tool''), (''end'', END)]),
      (''call_tool'', sender_of,
         [(''assistant'', ''assistant''), (''Chart Generator'', ''Chart Generator'')])]"
  by (simp add: workflow_def StateGraph_def add_node_def add_conditional_edges_def
      set_entry_point_def)

lemma workflow_entry_point: "entry_point (workflow ra ca ts) = Some ''assistant''"
  by (simp add: workflow_def StateGraph_def add_node_def add_conditional_edges_def
      set_entry_point_def)

lemma graph_step_assistant:
  "graph_step (workflow ra ca ts) ''assistant'' st =
     (case research_node ra st of
        Inl e \<Rightarrow> Inl e
      | Inr u \<Rightarrow>
          (case router (apply_update st u) of
             Inl e \<Rightarrow> Inl e
           | Inr answer \<Rightarrow>
               (case map_of [(''continue'', ''Chart Generator''), (''call_tool'', ''call_tool''),
                             (''end'', END)] answer of
                  None \<Rightarrow> Inl (KeyError answer)
                | Some dest \<Rightarrow> Inr (dest, apply_update st u))))"
  by (simp add: graph_step_def workflow_nodes workflow_branches split: sum.splits)

lemma graph_step_chart:
  "graph_step (workflow ra ca ts) ''Chart Generator'' st =
     (case chart_node ca st of
        Inl e \<Rightarrow> Inl e
      | Inr u \<Rightarrow>
          (case router (apply_update st u) of
             Inl e \<Rightarrow> Inl e
           | Inr answer \<Rightarrow>
               (case map_of [(''continue'', ''assistant''), (''call_tool'', ''call_tool''),
                             (''end'', END)] answer of
                  None \<Rightarrow> Inl (KeyError answer)
                | Some dest \<Rightarrow> Inr (dest, apply_update st u))))"
  by (simp add: graph_step_def workflow_nodes workflow_branches split: sum.splits)

lemma graph_step_call_tool:
  "graph_step (workflow ra ca ts) ''call_tool'' st =
     (case tool_node ts st of
        Inl e \<Rightarrow> Inl e
      | Inr u \<Rightarrow>
          (case sender_of (apply_update st u) of
             Inl e \<Rightarrow> Inl e
           | Inr answer \<Rightarrow>
               (case map_of [(''assistant'', ''assistant''),
                             (''Chart Generator'', ''Chart Generator'')] answer of
                  None \<Rightarrow> Inl (KeyError answer)
                | Some dest \<Rightarrow> Inr (dest, apply_update st u))))"
  by (simp add: graph_step_def workflow_nodes workflow_branches split: sum.splits)

lemma graph_step_other:
  "node \<notin> {''assistant'', ''Chart Generator'', ''call_tool''} \<Longrightarrow>
   graph_step (workflow ra ca ts) node st = Inl (KeyError node)"
  by (simp add: graph_step_def workflow_nodes)

lemma router_cases:
  "router st = Inr r \<Longrightarrow> r = ''call_tool'' \<or> r = ''end'' \<or> r = ''continue''"
  by (auto simp: router_def split: sum.splits if_splits)

lemma router_end_iff:
  "router st = Inr ''end'' \<longleftrightarrow>
     messages st \<noteq> [] \<and> ''function_call'' \<notin> fst ` set (additional_kwargs (last (messages st)))
     \<and> sublist ''FINAL ANSWER'' (content (last (messages st)))"
  by (auto simp: router_def py_last_def py_in_dict_def py_in_str_sublist
      simp del: py_in_str.simps split: sum.splits if_splits)

lemma END_neq [simp]:
  "END \<noteq> ''call_tool''" "END \<noteq> ''assistant''" "END \<noteq> ''Chart Generator''"
  "''call_tool'' \<noteq> END" "''assistant'' \<noteq> END" "''Chart Generator'' \<noteq> END"
  by (simp_all add: END_def)

lemma agent_node_update:
  "agent_node st agent nm = Inr u \<Longrightarrow>
     u_sender u = Some nm \<and> (\<exists>m. u_messages u = [m])"
  by (auto simp: agent_node_def split: sum.splits)

lemma tool_node_update_shape:
  "tool_node ts st = Inr u \<Longrightarrow>
     u_sender u = None \<and> (\<exists>m. u_messages u = [m] \<and> msg_class m = FunctionMessage)"
  by (auto simp: tool_node_def split: sum.splits)

lemma graph_step_cases:
  assumes "graph_step (workflow ra ca ts) node st = Inr (dest, st')"
  shows "(node = ''assistant'' \<and> (\<exists>u. research_node ra st = Inr u \<and> st' = apply_update st u))
       \<or> (node = ''Chart Generator'' \<and> (\<exists>u. chart_node ca st = Inr u \<and> st' = apply_update st u))
       \<or> (node = ''call_tool'' \<and> (\<exists>u. tool_node ts st = Inr u \<and> st' = apply_update st u))"
proof -
  consider "node = ''assistant''" | "node = ''Chart Generator''" | "node = ''call_tool''"
    | "node \<notin> {''assistant'', ''Chart Generator'', ''call_tool''}" by blast
  then show ?thesis
  proof cases
    case 1
    with assms show ?thesis
      by (auto simp: graph_step_assistant split: sum.splits option.splits)
  next
    case 2
    with assms show ?thesis
      by (auto simp: graph_step_chart split: sum.splits option.splits)
  next
    case 3
    with assms show ?thesis
      by (auto simp: graph_step_call_tool split: sum.splits option.splits)
  next
    case 4
    with assms show ?thesis by (simp add: graph_step_other)
  qed
qed


lemma graph_step_END:
  assumes "graph_step (workflow ra ca ts) node st = Inr (dest, st')"
  shows "dest = END \<longleftrightarrow> node \<noteq> ''call_tool'' \<and> router st' = Inr ''end''"
proof -
  consider "node = ''assistant''" | "node = ''Chart Generator''" | "node = ''call_tool''"
    | "node \<notin> {''assistant'', ''Chart Generator'', ''call_tool''}" by blast
  then show ?thesis
  proof cases
    case 1
    with assms show ?thesis
      by (auto simp: graph_step_assistant split: sum.splits option.splits if_splits
          dest: router_cases)
  next
    case 2
    with assms show ?thesis
      by (auto simp: graph_step_chart split: sum.splits option.splits if_splits
          dest: router_cases)
  next
    case 3
    with assms show ?thesis
      by (auto simp: graph_step_call_tool split: sum.splits option.splits if_splits)
  next
    case 4
    with assms show ?thesis by (simp add: graph_step_other)
  qed
qed

lemma run_END:
  "run (workflow ra ca ts) limit node st = Inr st' \<Longrightarrow> router st' = Inr ''end''"
proof (induction limit arbitrary: node st)
  case 0
  then show ?case by simp
next
  case (Suc limit)
  from Suc.prems obtain dest st1 where
    step: "graph_step (workflow ra ca ts) node st = Inr (dest, st1)"
    by (auto split: sum.splits)
  show ?case
  proof (cases "dest = END")
    case True
    with Suc.prems step have "st' = st1" by simp
    with step True show ?thesis using graph_step_END by blast
  next
    case False
    with Suc.prems step have "run (workflow ra ca ts) limit dest st1 = Inr st'" by simp
    then show ?thesis by (rule Suc.IH)
  qed
qed

lemma graph_step_sender:
  assumes "graph_step (workflow ra ca ts) node st = Inr (dest, st')"
  shows "sender st' = (if node = ''call_tool'' then sender st else Some node)"
  using graph_step_cases [OF assms]
  by (auto simp: apply_update_def research_node_def chart_node_def
      dest!: agent_node_update tool_node_update_shape)

lemma graph_step_messages:
  assumes "graph_step (workflow ra ca ts) node st = Inr (dest, st')"
  shows "\<exists>m. messages st' = messages st @ [m]"
  using graph_step_cases [OF assms]
  by (auto simp: apply_update_def research_node_def chart_node_def
      dest!: agent_node_update tool_node_update_shape)

lemma graph_steps_trace:
  "graph_steps w k (tr, node, st) = Inr (tr', node', st') \<Longrightarrow>
     length tr' = length tr + k \<and> take (length tr) tr' = tr"
proof (induction k arbitrary: tr node st)
  case 0
  then show ?case by simp
next
  case (Suc k)
  from Suc.prems obtain dest st1 where
    step: "graph_step w node st = Inr (dest, st1)"
    and rest: "graph_steps w k (tr @ [node], dest, st1) = Inr (tr', node', st')"
    by (auto split: sum.splits)
  from Suc.IH [OF rest] have "length tr' = length tr + Suc k"
    and t: "take (Suc (length tr)) tr' = tr @ [node]" by simp_all
  moreover from t have "take (length tr) (take (Suc (length tr)) tr') = take (length tr) (tr @ [node])"
    by simp
  then have "take (length tr) tr' = tr" by simp
  ultimately show ?case by simp
qed

lemma graph_steps_sender:
  "graph_steps (workflow ra ca ts) k (tr, node, st) = Inr (tr', node', st') \<Longrightarrow>
     (agents_of tr \<noteq> [] \<longrightarrow> sender st = Some (last (agents_of tr))) \<Longrightarrow>
     (agents_of tr' \<noteq> [] \<longrightarrow> sender st' = Some (last (agents_of tr')))"
proof (induction k arbitrary: tr node st)
  case 0
  then show ?case by simp
next
  case (Suc k)
  from Suc.prems(1) obtain dest st1 where
    step: "graph_step (workflow ra ca ts) node st = Inr (dest, st1)"
    and rest: "graph_steps (workflow ra ca ts) k (tr @ [node], dest, st1) = Inr (tr', node', st')"
    by (auto split: sum.splits)
  have "agents_of (tr @ [node]) \<noteq> [] \<longrightarrow> sender st1 = Some (last (agents_of (tr @ [node])))"
    using graph_step_sender [OF step] Suc.prems(2) by (auto simp: agents_of_def)
  with rest show ?case by (rule Suc.IH)
qed

lemma graph_steps_messages:
  "graph_steps (workflow ra ca ts) k (tr, node, st) = Inr (tr', node', st') \<Longrightarrow>
     length (messages st') = length (messages st) + k
     \<and> take (length (messages st)) (messages st') = messages st"
proof (induction k arbitrary: tr node st)
  case 0
  then show ?case by simp
next
  case (Suc k)
  from Suc.prems(1) obtain dest st1 where
    step: "graph_step (workflow ra ca ts) node st = Inr (dest, st1)"
    and rest: "graph_steps (workflow ra ca ts) k (tr @ [node], dest, st1) = Inr (tr', node', st')"
    by (auto split: sum.splits)
  from graph_step_messages [OF step] obtain m where m: "messages st1 = messages st @ [m]" ..
  from Suc.IH [OF rest] m
  have len: "length (messages st') = length (messages st) + Suc k"
    and t: "take (Suc (length (messages st))) (messages st') = messages st @ [m]" by simp_all
  from t have "take (length (messages st)) (take (Suc (length (messages st))) (messages st'))
      = take (length (messages st)) (messages st @ [m])" by simp
  then have "take (length (messages st)) (messages st') = messages st" by simp
  with len show ?case by simp
qed

section \<open>The example run\<close>

lemma example_step1:
  "graph_step example_workflow ''assistant'' example_st0 = Inr (''Chart Generator'', example_st1)"
  by (simp add: example_workflow_def graph_step_assistant research_node_def agent_node_def
      example_researcher_def text_reply_def apply_update_def router_def py_last_def
      py_in_dict_def example_msg1_def sublist_Cons_right py_in_str_sublist
      example_st0_def example_st1_def
      del: py_in_str.simps)

lemma example_step2:
  "graph_step example_workflow ''Chart Generator'' example_st1 = Inr (''call_tool'', example_st2)"
  by (simp add: example_workflow_def graph_step_chart chart_node_def agent_node_def
      example_chart_agent_def function_call_reply_def apply_update_def router_def py_last_def
      py_in_dict_def example_msg1_def example_msg2_def example_st1_def example_st2_def)

lemma example_tool_node:
  "tool_node (tools example_search example_repl) example_st2 =
     Inr \<lparr>u_messages = [example_msg3], u_sender = None\<rparr>"
proof -
  let ?args = "''{\"code\": \"print(333 + 444)\"}''"
  have "tool_node (tools example_search example_repl) example_st2 =
     (case json_loads ?args of
        Inl e \<Rightarrow> Inl e
      | Inr decoded \<Rightarrow>
     (case single_arg_by_value decoded of
        Inl e \<Rightarrow> Inl e
      | Inr tool_input \<Rightarrow>
     (case ToolInvocation (PStr ''python_repl'') tool_input of
        Inl e \<Rightarrow> Inl e
      | Inr action \<Rightarrow>
     (case tool_executor_invoke (tools example_search example_repl) action of
        Inl e \<Rightarrow> Inl e
      | Inr response \<Rightarrow>
          Inr \<lparr>u_messages =
                 [\<lparr>msg_class = FunctionMessage,
                   content = inv_tool action @ '' response: '' @ py_str response,
                   additional_kwargs = [],
                   name = Some (inv_tool action)\<rparr>],
               u_sender = None\<rparr>))))"
    by (rule tool_node_well_formed [where fc = "[(''arguments'', PStr ?args), (''name'', PStr ''python_repl'')]"])
       (simp_all add: example_msg2_def example_st2_def)
  then show ?thesis
    by (simp add: json_loads_code single_arg_by_value_dict tool_executor_invoke_def
        tool_map_def tools_def example_search_def python_repl_tool_def python_repl_def
        example_repl_def fence_def example_msg3_def)
qed

lemma example_step3:
  "graph_step example_workflow ''call_tool'' example_st2 = Inr (''Chart Generator'', example_st3)"
  by (simp add: example_workflow_def graph_step_call_tool example_tool_node)
     (simp add: apply_update_def sender_of_def example_st2_def example_st3_def)

lemma example_step4:
  "graph_step example_workflow ''Chart Generator'' example_st3 = Inr (END, example_st4)"
  by (simp add: example_workflow_def graph_step_chart chart_node_def agent_node_def
      example_chart_agent_def text_reply_def apply_update_def router_def py_last_def
      py_in_dict_def example_msg3_def example_msg4_def sublist_Cons_right py_in_str_sublist
      example_st3_def example_st4_def
      del: py_in_str.simps)

lemma run_unfold:
  "0 < limit \<Longrightarrow>
   run w limit node st =
     (case graph_step w node st of
        Inl e \<Rightarrow> Inl e
      | Inr (dest, st') \<Rightarrow> if dest = END then Inr st' else run w (limit - 1) dest st')"
  by (cases limit) (auto split: sum.splits)

lemma example_run: "graph_invoke example_workflow 150 [question] = Inr example_st4"
proof -
  have entry: "entry_point example_workflow = Some ''assistant''"
    by (simp add: example_workflow_def workflow_entry_point)
  show ?thesis
    unfolding graph_invoke_def entry example_st0_def [symmetric]
    by (simp add: run_unfold example_step1 example_step2 example_step3 example_step4)
qed

lemma example_steps:
  "graph_steps example_workflow 4 ([], ''assistant'', example_st0) =
     Inr ([''assistant'', ''Chart Generator'', ''call_tool'', ''Chart Generator''], END,
          example_st4)"
proof -
  have e: "(4::nat) = Suc (Suc (Suc (Suc 0)))" by simp
  show ?thesis
    unfolding e
    by (simp add: example_step1 example_step2 example_step3 example_step4)
qed

section \<open>The router: three outcomes\<close>

text \<open>
  C1. On every state with a non-empty \<open>messages\<close> list the router returns (it does not
  raise), and what it returns is one of three strings, decided by the last message:
  \<open>call_tool\<close> when \<open>additional_kwargs\<close> has the key \<open>function_call\<close>; otherwise \<open>end\<close> when
  \<open>FINAL ANSWER\<close> occurs in \<open>content\<close> as a substring; otherwise \<open>continue\<close>.
\<close>

theorem router_three_outcomes:
  assumes "messages st \<noteq> []"
  shows "router st =
     Inr (if ''function_call'' \<in> fst ` set (additional_kwargs (last (messages st)))
          then ''call_tool''
          else if sublist ''FINAL ANSWER'' (content (last (messages st)))
          then ''end''
          else ''continue'')"
  using assms
  by (simp add: router_def py_last_def py_in_dict_def py_in_str_sublist del: py_in_str.simps)

theorem router_three_outcomes_witness:
  "messages example_st4 \<noteq> [] \<and> router example_st4 = Inr ''end''
   \<and> messages example_st2 \<noteq> [] \<and> router example_st2 = Inr ''call_tool''
   \<and> messages example_st1 \<noteq> [] \<and> router example_st1 = Inr ''continue''"
proof -
  have a: "messages example_st4 \<noteq> []" by (simp add: example_st4_def)
  have b: "messages example_st2 \<noteq> []" by (simp add: example_st2_def)
  have c: "messages example_st1 \<noteq> []" by (simp add: example_st1_def)
  from router_three_outcomes [OF a] have "router example_st4 = Inr ''end''"
    by (simp add: example_st4_def example_msg4_def sublist_Cons_right)
  moreover from router_three_outcomes [OF b] have "router example_st2 = Inr ''call_tool''"
    by (simp add: example_st2_def example_msg2_def)
  moreover from router_three_outcomes [OF c] have "router example_st1 = Inr ''continue''"
    by (simp add: example_st1_def example_msg1_def sublist_Cons_right)
  ultimately show ?thesis using a b c by blast
qed

section \<open>The tool node: from a function call to a function message\<close>

text \<open>
  C2, as stated, fails: not every state whose last message carries a \<open>function_call\<close>
  gets an update from the tool node. Here the reply of the model was cut off inside the
  arguments, which end before the string and the object are closed. The router sends
  the state to the tool node; \<open>json.loads\<close> raises \<open>JSONDecodeError\<close> on the arguments and
  so does \<open>tool_node\<close>: no tool is invoked and no message is returned.
\<close>

theorem tool_node_raises_on_truncated_arguments:
  "router example_truncated_call = Inr ''call_tool'' \<and>
   tool_node (tools example_search example_repl) example_truncated_call = Inl JSONDecodeError"
proof -
  have decode: "json_loads ''{\"code\": \"print(333 + 444)'' = Inl JSONDecodeError"
    by code_simp
  have "tool_node (tools example_search example_repl) example_truncated_call =
     (case json_loads ''{\"code\": \"print(333 + 444)'' of
        Inl e \<Rightarrow> Inl e
      | Inr decoded \<Rightarrow>
     (case single_arg_by_value decoded of
        Inl e \<Rightarrow> Inl e
      | Inr tool_input \<Rightarrow>
     (case ToolInvocation (PStr ''python_repl'') tool_input of
        Inl e \<Rightarrow> Inl e
      | Inr action \<Rightarrow>
     (case tool_executor_invoke (tools example_search example_repl) action of
        Inl e \<Rightarrow> Inl e
      | Inr response \<Rightarrow>
          Inr \<lparr>u_messages =
                 [\<lparr>msg_class = FunctionMessage,
                   content = inv_tool action @ '' response: '' @ py_str response,
                   additional_kwargs = [],
                   name = Some (inv_tool action)\<rparr>],
               u_sender = None\<rparr>))))"
    by (rule tool_node_well_formed
          [where fc = "[(''arguments'', PStr ''{\"code\": \"print(333 + 444)''),
                        (''name'', PStr ''python_repl'')]"])
       (simp_all add: example_truncated_call_def)
  then have "tool_node (tools example_search example_repl) example_truncated_call =
      Inl JSONDecodeError"
    by (simp add: decode)
  moreover have "router example_truncated_call = Inr ''call_tool''"
    by (simp add: router_def example_truncated_call_def py_last_def py_in_dict_def)
  ultimately show ?thesis by simp
qed

text \<open>
  C2, amended. Let the last message of the state carry a \<open>function_call\<close> with the strings
  \<open>name\<close> and \<open>arguments\<close>, and let \<open>arguments\<close> decode to a JSON object. The tool input is
  the object, or the value of its only key when that key is \<open>__arg1\<close>. The tool node
  builds the invocation from \<open>name\<close> and the tool input and raises when the invocation
  refuses them: the invocation keeps a string and a dict as they are, takes a number or
  a bool as its \<open>str()\<close>, and refuses \<open>None\<close>. The tool is then chosen by \<open>name\<close> among the
  two registered tools, the search tool and \<open>python_repl\<close>, and invoked on the input of
  the invocation; for any other \<open>name\<close> no tool is invoked and the response is the
  executor's message \<open><name> is not a valid tool, try one of [<search tool>,
  python_repl].\<close> When the tool raises, so does the tool node; otherwise it returns the
  update whose \<open>messages\<close> is the single \<open>FunctionMessage\<close> with content
  \<open><name> response: <str(response)>\<close> and name \<open>name\<close>. The decoding is that of
  \<open>json.loads\<close>: in particular the text of an object with one member, whose key and value
  are strings with no quote, backslash or control character, decodes to that object.
\<close>

theorem tool_node_function_message:
  assumes "messages st \<noteq> []"
    and "map_of (additional_kwargs (last (messages st))) ''function_call'' = Some (PDict fc)"
    and "map_of fc ''name'' = Some (PStr tool_name)"
    and "map_of fc ''arguments'' = Some (PStr arguments)"
    and "json_loads arguments = Inr (PDict obj)"
    and "tool_input =
           (if length obj = 1 \<and> ''__arg1'' \<in> fst ` set obj then snd (hd obj) else PDict obj)"
    and "t_name tavily_tool \<noteq> ''python_repl''"
  shows "tool_node (tools tavily_tool repl_run) st =
     (case ToolInvocation (PStr tool_name) tool_input of
        Inl e \<Rightarrow> Inl e
      | Inr action \<Rightarrow>
          (case (if tool_name = t_name tavily_tool then
                   t_invoke tavily_tool (inv_tool_input action)
                 else if tool_name = ''python_repl'' then
                   t_invoke (python_repl_tool repl_run) (inv_tool_input action)
                 else
                   Inr (Response (tool_name @ '' is not a valid tool, try one of [''
                          @ t_name tavily_tool @ '', python_repl].'')))
           of
             Inl e \<Rightarrow> Inl e
           | Inr response \<Rightarrow>
               Inr \<lparr>u_messages =
                      [\<lparr>msg_class = FunctionMessage,
                        content = tool_name @ '' response: '' @ py_str response,
                        additional_kwargs = [],
                        name = Some tool_name\<rparr>],
                    u_sender = None\<rparr>))
     \<and> ToolInvocation (PStr tool_name) (PStr s) =
         Inr \<lparr>inv_tool = tool_name, inv_tool_input = PStr s\<rparr>
     \<and> ToolInvocation (PStr tool_name) (PDict d) =
         Inr \<lparr>inv_tool = tool_name, inv_tool_input = PDict d\<rparr>
     \<and> ToolInvocation (PStr tool_name) (PInt i) =
         Inr \<lparr>inv_tool = tool_name, inv_tool_input = PStr (py_int_str i)\<rparr>
     \<and> ToolInvocation (PStr tool_name) (PFloat lexeme) =
         Inr \<lparr>inv_tool = tool_name, inv_tool_input = PStr (py_float_str lexeme)\<rparr>
     \<and> ToolInvocation (PStr tool_name) (PBool b) =
         Inr \<lparr>inv_tool = tool_name, inv_tool_input = PStr (py_bool_str b)\<rparr>
     \<and> ToolInvocation (PStr tool_name) PNone = Inl ValidationError
     \<and> ((\<forall>c \<in> set key. unescaped c) \<and> (\<forall>c \<in> set str. unescaped c) \<longrightarrow>
         json_loads (''{\"'' @ key @ ''\": \"'' @ str @ ''\"}'') = Inr (PDict [(key, PStr str)]))"
proof -
  have unwrap: "single_arg_by_value (PDict obj) = Inr tool_input"
    unfolding assms(6) by (cases obj) (auto simp: single_arg_by_value_def py_in_dict_def)
  have node: "tool_node (tools tavily_tool repl_run) st =
     (case ToolInvocation (PStr tool_name) tool_input of
        Inl e \<Rightarrow> Inl e
      | Inr action \<Rightarrow>
     (case tool_executor_invoke (tools tavily_tool repl_run) action of
        Inl e \<Rightarrow> Inl e
      | Inr response \<Rightarrow>
          Inr \<lparr>u_messages =
                 [\<lparr>msg_class = FunctionMessage,
                   content = inv_tool action @ '' response: '' @ py_str response,
                   additional_kwargs = [],
                   name = Some (inv_tool action)\<rparr>],
               u_sender = None\<rparr>))"
    using assms(1-5)
    by (simp add: tool_node_def py_last_def function_call_field_def dict_getitem_def unwrap
        split: sum.splits)
  have registered: "tool_map (tools tavily_tool repl_run) nm =
     (if nm = t_name tavily_tool then Some tavily_tool
      else if nm = ''python_repl'' then Some (python_repl_tool repl_run)
      else None)" for nm
    using assms(7) by (auto simp: tool_map_def tools_def python_repl_tool_def)
  have invalid: "invalid_tool_msg (tools tavily_tool repl_run) nm =
     nm @ '' is not a valid tool, try one of ['' @ t_name tavily_tool @ '', python_repl].''" for nm
    by (simp add: invalid_tool_msg_def tools_def python_repl_tool_def)
  have exec: "tool_executor_invoke (tools tavily_tool repl_run) action =
      (if tool_name = t_name tavily_tool then
         t_invoke tavily_tool (inv_tool_input action)
       else if tool_name = ''python_repl'' then
         t_invoke (python_repl_tool repl_run) (inv_tool_input action)
       else
         Inr (Response (tool_name @ '' is not a valid tool, try one of [''
                @ t_name tavily_tool @ '', python_repl].'')))"
    if "inv_tool action = tool_name" for action
    using that by (simp add: tool_executor_invoke_def registered invalid)
  have first: "tool_node (tools tavily_tool repl_run) st =
     (case ToolInvocation (PStr tool_name) tool_input of
        Inl e \<Rightarrow> Inl e
      | Inr action \<Rightarrow>
          (case (if tool_name = t_name tavily_tool then
                   t_invoke tavily_tool (inv_tool_input action)
                 else if tool_name = ''python_repl'' then
                   t_invoke (python_repl_tool repl_run) (inv_tool_input action)
                 else
                   Inr (Response (tool_name @ '' is not a valid tool, try one of [''
                          @ t_name tavily_tool @ '', python_repl].'')))
           of
             Inl e \<Rightarrow> Inl e
           | Inr response \<Rightarrow>
               Inr \<lparr>u_messages =
                      [\<lparr>msg_class = FunctionMessage,
                        content = tool_name @ '' response: '' @ py_str response,
                        additional_kwargs = [],
                        name = Some tool_name\<rparr>],
                    u_sender = None\<rparr>))"
  proof (cases "ToolInvocation (PStr tool_name) tool_input")
    case (Inl e)
    then show ?thesis by (simp add: node)
  next
    case (Inr action)
    then have nm: "inv_tool action = tool_name"
      by (auto simp: ToolInvocation_def split: sum.splits)
    show ?thesis
      unfolding node Inr by (simp only: sum.case exec [OF nm] nm)
  qed
  have invocation:
    "ToolInvocation (PStr tool_name) (PStr s) =
         Inr \<lparr>inv_tool = tool_name, inv_tool_input = PStr s\<rparr>"
    "ToolInvocation (PStr tool_name) (PDict d) =
         Inr \<lparr>inv_tool = tool_name, inv_tool_input = PDict d\<rparr>"
    "ToolInvocation (PStr tool_name) (PInt i) =
         Inr \<lparr>inv_tool = tool_name, inv_tool_input = PStr (py_int_str i)\<rparr>"
    "ToolInvocation (PStr tool_name) (PFloat lexeme) =
         Inr \<lparr>inv_tool = tool_name, inv_tool_input = PStr (py_float_str lexeme)\<rparr>"
    "ToolInvocation (PStr tool_name) (PBool b) =
         Inr \<lparr>inv_tool = tool_name, inv_tool_input = PStr (py_bool_str b)\<rparr>"
    "ToolInvocation (PStr tool_name) PNone = Inl ValidationError"
    by (simp_all add: ToolInvocation_def str_or_dict_validator_def)
  have decode: "json_loads (''{\"'' @ key @ ''\": \"'' @ str @ ''\"}'') = Inr (PDict [(key, PStr str)])"
    if k: "\<forall>c \<in> set key. unescaped c" and v: "\<forall>c \<in> set str. unescaped c"
  proof -
    define a where "a = ''{\"'' @ key @ ''\": \"'' @ str @ ''\"}''"
    obtain n where n: "2 * length a + 2 = Suc (Suc (Suc n))"
      by (cases "2 * length a + 2") (auto simp: a_def)
    have ky: "scanstring (key @ CHR 0x22 # '': \"'' @ str @ ''\"}'') =
        Inr (key, '': \"'' @ str @ ''\"}'')"
      using k by (rule scanstring_unescaped)
    have val: "scanstring (str @ CHR 0x22 # ''}'') = Inr (str, ''}'')"
      using v by (rule scanstring_unescaped)
    have "JSONObject (Suc (Suc n)) (key @ ''\": \"'' @ str @ ''\"}'') [] =
        Inr (PDict [(key, PStr str)], [])"
      using ky val by (simp add: skip_ws_def is_ws_def py_dict_def)
    then have "scan_once (Suc (Suc (Suc n))) (skip_ws a) = Inr (PDict [(key, PStr str)], [])"
      by (simp add: a_def skip_ws_def is_ws_def)
    then show ?thesis
      unfolding a_def [symmetric] json_loads_def n by (simp add: a_def skip_ws_def)
  qed
  from first invocation decode show ?thesis by simp
qed

theorem tool_node_function_message_witness:
  "tool_node (tools example_lookup example_repl)
     \<lparr>messages = [question, function_call_reply ''python_repl''
                     ''{\"__arg1\": \"print(333 + 444)\"}''],
      sender = Some ''Chart Generator''\<rparr> =
   Inr \<lparr>u_messages =
          [\<lparr>msg_class = FunctionMessage,
            content = ''python_repl response: Succesfully executed:'' @ [CHR 0x0A]
              @ [CHR 0x60, CHR 0x60, CHR 0x60] @ ''python'' @ [CHR 0x0A] @ ''print(333 + 444)'' @ [CHR 0x0A]
              @ [CHR 0x60, CHR 0x60, CHR 0x60] @ [CHR 0x0A] @ ''Stdout: 777'' @ [CHR 0x0A],
            additional_kwargs = [],
            name = Some ''python_repl''\<rparr>],
        u_sender = None\<rparr>
   \<and> tool_node (tools example_lookup example_repl)
     \<lparr>messages = [question, function_call_reply ''tavily_search_results_json''
                     ''{\"query\": \"sum of 333 and 444\", \"max_results\": 3}''],
      sender = Some ''Researcher''\<rparr> =
   Inr \<lparr>u_messages =
          [\<lparr>msg_class = FunctionMessage,
            content = ''tavily_search_results_json response: results for sum of 333 and 444'',
            additional_kwargs = [],
            name = Some ''tavily_search_results_json''\<rparr>],
        u_sender = None\<rparr>
   \<and> tool_node (tools example_lookup example_repl)
     \<lparr>messages = [question, function_call_reply ''tavily_search_results_json''
                     ''{\"__arg1\": 777}''],
      sender = Some ''Researcher''\<rparr> =
   Inr \<lparr>u_messages =
          [\<lparr>msg_class = FunctionMessage,
            content = ''tavily_search_results_json response: results for 777'',
            additional_kwargs = [],
            name = Some ''tavily_search_results_json''\<rparr>],
        u_sender = None\<rparr>
   \<and> tool_node (tools example_lookup example_repl)
     \<lparr>messages = [question, function_call_reply ''calculator''
                     ''{\"__arg1\": 777}''],
      sender = Some ''Researcher''\<rparr> =
   Inr \<lparr>u_messages =
          [\<lparr>msg_class = FunctionMessage,
            content = ''calculator response: calculator is not a valid tool, try one of [tavily_search_results_json, python_repl].'',
            additional_kwargs = [],
            name = Some ''calculator''\<rparr>],
        u_sender = None\<rparr>
   \<and> tool_node (tools example_lookup example_repl)
     \<lparr>messages = [question, function_call_reply ''python_repl''
                     ''{\"__arg1\": null}''],
      sender = Some ''Chart Generator''\<rparr> =
   Inl ValidationError
   \<and> tool_node (tools example_lookup example_repl)
     \<lparr>messages = [question, function_call_reply ''python_repl''
                     ''{}''],
      sender = Some ''Chart Generator''\<rparr> =
   Inl ValidationError
   \<and> tool_node (tools example_lookup example_quiet_repl)
     \<lparr>messages = [question, function_call_reply ''python_repl''
                     ''{\"code\": 777}''],
      sender = Some ''Chart Generator''\<rparr> =
   Inr \<lparr>u_messages =
          [\<lparr>msg_class = FunctionMessage,
            content = ''python_repl response: Succesfully executed:'' @ [CHR 0x0A]
              @ [CHR 0x60, CHR 0x60, CHR 0x60] @ ''python'' @ [CHR 0x0A] @ ''777'' @ [CHR 0x0A]
              @ [CHR 0x60, CHR 0x60, CHR 0x60] @ [CHR 0x0A] @ ''Stdout: '',
            additional_kwargs = [],
            name = Some ''python_repl''\<rparr>],
        u_sender = None\<rparr>
   \<and> tool_node (tools example_lookup example_repl)
     \<lparr>messages = [question, function_call_reply ''tavily_search_results_json''
                     ''{\"__arg1\": [[\"query\", \"sum\"], [\"query\", \"sum of 333 and 444\"]]}''],
      sender = Some ''Researcher''\<rparr> =
   Inr \<lparr>u_messages =
          [\<lparr>msg_class = FunctionMessage,
            content = ''tavily_search_results_json response: results for sum of 333 and 444'',
            additional_kwargs = [],
            name = Some ''tavily_search_results_json''\<rparr>],
        u_sender = None\<rparr>"
proof -
  have inst: "tool_node (tools example_lookup rr)
        \<lparr>messages = [question, function_call_reply nm arguments], sender = sd\<rparr> =
     (case ToolInvocation (PStr nm) tool_input of
        Inl e \<Rightarrow> Inl e
      | Inr action \<Rightarrow>
          (case (if nm = t_name example_lookup then
                   t_invoke example_lookup (inv_tool_input action)
                 else if nm = ''python_repl'' then
                   t_invoke (python_repl_tool rr) (inv_tool_input action)
                 else
                   Inr (Response (nm @ '' is not a valid tool, try one of [''
                          @ t_name example_lookup @ '', python_repl].'')))
           of
             Inl e \<Rightarrow> Inl e
           | Inr response \<Rightarrow>
               Inr \<lparr>u_messages =
                      [\<lparr>msg_class = FunctionMessage,
                        content = nm @ '' response: '' @ py_str response,
                        additional_kwargs = [],
                        name = Some nm\<rparr>],
                    u_sender = None\<rparr>))
     \<and> ((\<forall>c \<in> set key. unescaped c) \<and> (\<forall>c \<in> set str. unescaped c) \<longrightarrow>
         json_loads (''{\"'' @ key @ ''\": \"'' @ str @ ''\"}'') = Inr (PDict [(key, PStr str)]))"
    if "json_loads arguments = Inr (PDict obj)"
      and "tool_input =
        (if length obj = 1 \<and> ''__arg1'' \<in> fst ` set obj then snd (hd obj) else PDict obj)"
    for rr nm arguments sd obj tool_input key str
  proof -
    let ?st = "\<lparr>messages = [question, function_call_reply nm arguments], sender = sd\<rparr>"
    let ?fc = "[(''arguments'', PStr arguments), (''name'', PStr nm)]"
    have h1: "messages ?st \<noteq> []" by simp
    have h2: "map_of (additional_kwargs (last (messages ?st))) ''function_call'' = Some (PDict ?fc)"
      by (simp add: function_call_reply_def)
    have h3: "map_of ?fc ''name'' = Some (PStr nm)" by simp
    have h4: "map_of ?fc ''arguments'' = Some (PStr arguments)" by simp
    have h7: "t_name example_lookup \<noteq> ''python_repl''" by (simp add: example_lookup_def)
    from tool_node_function_message [OF h1 h2 h3 h4 that(1) that(2) h7, where key = key and str = str]
    show ?thesis by blast
  qed
  have name: "t_name example_lookup = ''tavily_search_results_json''"
    by (simp add: example_lookup_def)
  have repl: "t_invoke (python_repl_tool example_repl) (PStr ''print(333 + 444)'') =
      Inr (Response (''Succesfully executed:'' @ [CHR 0x0A]
              @ [CHR 0x60, CHR 0x60, CHR 0x60] @ ''python'' @ [CHR 0x0A] @ ''print(333 + 444)'' @ [CHR 0x0A]
              @ [CHR 0x60, CHR 0x60, CHR 0x60] @ [CHR 0x0A] @ ''Stdout: 777'' @ [CHR 0x0A]))"
    by (simp add: python_repl_tool_def python_repl_def example_repl_def fence_def)
  have number: "py_int_str 777 = ''777''"
    by code_simp
  have query: "json_loads ''{\"query\": \"sum of 333 and 444\", \"max_results\": 3}'' =
      Inr (PDict [(''query'', PStr ''sum of 333 and 444''), (''max_results'', PInt 3)])"
    by code_simp
  have arg1_int: "json_loads ''{\"__arg1\": 777}'' = Inr (PDict [(''__arg1'', PInt 777)])"
    by code_simp
  have arg1_null: "json_loads ''{\"__arg1\": null}'' = Inr (PDict [(''__arg1'', PNone)])"
    by code_simp
  have empty: "json_loads ''{}'' = Inr (PDict [])"
    by code_simp
  have "(\<forall>c \<in> set ''__arg1''. unescaped c) \<and> (\<forall>c \<in> set ''print(333 + 444)''. unescaped c)"
    by (simp add: unescaped_def)
  with inst [OF query refl, where key = "''__arg1''" and str = "''print(333 + 444)''"]
  have arg1: "json_loads ''{\"__arg1\": \"print(333 + 444)\"}'' =
      Inr (PDict [(''__arg1'', PStr ''print(333 + 444)'')])"
    by simp
  have one: "tool_node (tools example_lookup example_repl)
     \<lparr>messages = [question, function_call_reply ''python_repl''
                     ''{\"__arg1\": \"print(333 + 444)\"}''],
      sender = Some ''Chart Generator''\<rparr> =
   Inr \<lparr>u_messages =
          [\<lparr>msg_class = FunctionMessage,
            content = ''python_repl response: Succesfully executed:'' @ [CHR 0x0A]
              @ [CHR 0x60, CHR 0x60, CHR 0x60] @ ''python'' @ [CHR 0x0A] @ ''print(333 + 444)'' @ [CHR 0x0A]
              @ [CHR 0x60, CHR 0x60, CHR 0x60] @ [CHR 0x0A] @ ''Stdout: 777'' @ [CHR 0x0A],
            additional_kwargs = [],
            name = Some ''python_repl''\<rparr>],
        u_sender = None\<rparr>"
    using inst [OF arg1 refl, THEN conjunct1] by (simp add: name repl)
  have two: "tool_node (tools example_lookup example_repl)
     \<lparr>messages = [question, function_call_reply ''tavily_search_results_json''
                     ''{\"query\": \"sum of 333 and 444\", \"max_results\": 3}''],
      sender = Some ''Researcher''\<rparr> =
   Inr \<lparr>u_messages =
          [\<lparr>msg_class = FunctionMessage,
            content = ''tavily_search_results_json response: results for sum of 333 and 444'',
            additional_kwargs = [],
            name = Some ''tavily_search_results_json''\<rparr>],
        u_sender = None\<rparr>"
    using inst [OF query refl, THEN conjunct1] by (simp add: name example_lookup_def)
  have three: "tool_node (tools example_lookup example_repl)
     \<lparr>messages = [question, function_call_reply ''tavily_search_results_json''
                     ''{\"__arg1\": 777}''],
      sender = Some ''Researcher''\<rparr> =
   Inr \<lparr>u_messages =
          [\<lparr>msg_class = FunctionMessage,
            content = ''tavily_search_results_json response: results for 777'',
            additional_kwargs = [],
            name = Some ''tavily_search_results_json''\<rparr>],
        u_sender = None\<rparr>"
    using inst [OF arg1_int refl, THEN conjunct1]
    by (simp add: name ToolInvocation_def str_or_dict_validator_def number example_lookup_def)
  have four: "tool_node (tools example_lookup example_repl)
     \<lparr>messages = [question, function_call_reply ''calculator''
                     ''{\"__arg1\": 777}''],
      sender = Some ''Researcher''\<rparr> =
   Inr \<lparr>u_messages =
          [\<lparr>msg_class = FunctionMessage,
            content = ''calculator response: calculator is not a valid tool, try one of [tavily_search_results_json, python_repl].'',
            additional_kwargs = [],
            name = Some ''calculator''\<rparr>],
        u_sender = None\<rparr>"
    using inst [OF arg1_int refl, THEN conjunct1]
    by (simp add: name ToolInvocation_def str_or_dict_validator_def number)
  have five: "tool_node (tools example_lookup example_repl)
     \<lparr>messages = [question, function_call_reply ''python_repl''
                     ''{\"__arg1\": null}''],
      sender = Some ''Chart Generator''\<rparr> =
   Inl ValidationError"
    using inst [OF arg1_null refl, THEN conjunct1]
    by (simp add: ToolInvocation_def str_or_dict_validator_def)
  have six: "tool_node (tools example_lookup example_repl)
     \<lparr>messages = [question, function_call_reply ''python_repl''
                     ''{}''],
      sender = Some ''Chart Generator''\<rparr> =
   Inl ValidationError"
    using inst [OF empty refl, THEN conjunct1] by (simp add: name python_repl_tool_def)
  have code_int: "json_loads ''{\"code\": 777}'' = Inr (PDict [(''code'', PInt 777)])"
    by code_simp
  have seven: "tool_node (tools example_lookup example_quiet_repl)
     \<lparr>messages = [question, function_call_reply ''python_repl''
                     ''{\"code\": 777}''],
      sender = Some ''Chart Generator''\<rparr> =
   Inr \<lparr>u_messages =
          [\<lparr>msg_class = FunctionMessage,
            content = ''python_repl response: Succesfully executed:'' @ [CHR 0x0A]
              @ [CHR 0x60, CHR 0x60, CHR 0x60] @ ''python'' @ [CHR 0x0A] @ ''777'' @ [CHR 0x0A]
              @ [CHR 0x60, CHR 0x60, CHR 0x60] @ [CHR 0x0A] @ ''Stdout: '',
            additional_kwargs = [],
            name = Some ''python_repl''\<rparr>],
        u_sender = None\<rparr>"
    using inst [OF code_int refl, THEN conjunct1]
    by (simp add: name python_repl_tool_def python_repl_def example_quiet_repl_def fence_def number)
  have pairs: "json_loads ''{\"__arg1\": [[\"query\", \"sum\"], [\"query\", \"sum of 333 and 444\"]]}'' =
      Inr (PDict [(''__arg1'',
             PList [PList [PStr ''query'', PStr ''sum''],
                    PList [PStr ''query'', PStr ''sum of 333 and 444'']])])"
    by code_simp
  have converted: "ToolInvocation (PStr ''tavily_search_results_json'')
        (PList [PList [PStr ''query'', PStr ''sum''],
                PList [PStr ''query'', PStr ''sum of 333 and 444'']]) =
      Inr \<lparr>inv_tool = ''tavily_search_results_json'',
           inv_tool_input = PDict [(''query'', PStr ''sum of 333 and 444'')]\<rparr>"
    by code_simp
  have eight: "tool_node (tools example_lookup example_repl)
     \<lparr>messages = [question, function_call_reply ''tavily_search_results_json''
                     ''{\"__arg1\": [[\"query\", \"sum\"], [\"query\", \"sum of 333 and 444\"]]}''],
      sender = Some ''Researcher''\<rparr> =
   Inr \<lparr>u_messages =
          [\<lparr>msg_class = FunctionMessage,
            content = ''tavily_search_results_json response: results for sum of 333 and 444'',
            additional_kwargs = [],
            name = Some ''tavily_search_results_json''\<rparr>],
        u_sender = None\<rparr>"
    using inst [OF pairs refl, THEN conjunct1]
    by (simp add: name converted example_lookup_def)
  from one two three four five six seven eight show ?thesis by (simp only: simp_thms)
qed

section \<open>The graph: three-way control transfer\<close>



section \<open>The graph: the end is reached on FINAL ANSWER only\<close>

text \<open>
  C4. A step of the graph goes to \<open>END\<close> exactly when the node that ran is an agent node
  and the last message of the new state has no \<open>function_call\<close> and contains
  \<open>FINAL ANSWER\<close>. So every run that returns (that reaches \<open>END\<close>, from any node and state
  and under any recursion limit) returns a state whose last message contains
  \<open>FINAL ANSWER\<close> and has no \<open>function_call\<close>.
\<close>

theorem end_only_on_final_answer:
  "(graph_step (workflow ra ca ts) node st = Inr (dest, st') \<longrightarrow>
      (dest = END \<longleftrightarrow>
         node \<noteq> ''call_tool''
         \<and> ''function_call'' \<notin> fst ` set (additional_kwargs (last (messages st')))
         \<and> sublist ''FINAL ANSWER'' (content (last (messages st')))))
   \<and> (run (workflow ra ca ts) limit node st = Inr st' \<longrightarrow>
         messages st' \<noteq> []
         \<and> ''function_call'' \<notin> fst ` set (additional_kwargs (last (messages st')))
         \<and> sublist ''FINAL ANSWER'' (content (last (messages st'))))"
proof -
  have one: "dest = END \<longleftrightarrow>
         node \<noteq> ''call_tool''
         \<and> ''function_call'' \<notin> fst ` set (additional_kwargs (last (messages st')))
         \<and> sublist ''FINAL ANSWER'' (content (last (messages st')))"
    if step: "graph_step (workflow ra ca ts) node st = Inr (dest, st')"
  proof -
    from graph_step_cases [OF step] have "messages st' \<noteq> []"
      by (auto simp: apply_update_def research_node_def chart_node_def
          dest!: agent_node_update tool_node_update_shape)
    with graph_step_END [OF step] show ?thesis
      by (simp add: router_end_iff)
  qed
  have many: "messages st' \<noteq> []
         \<and> ''function_call'' \<notin> fst ` set (additional_kwargs (last (messages st')))
         \<and> sublist ''FINAL ANSWER'' (content (last (messages st')))"
    if "run (workflow ra ca ts) limit node st = Inr st'"
  proof -
    from that have "router st' = Inr ''end''" by (rule run_END)
    then show ?thesis by (simp add: router_end_iff)
  qed
  from one many show ?thesis by blast
qed

theorem end_only_on_final_answer_witness:
  "graph_step example_workflow ''Chart Generator'' example_st3 = Inr (END, example_st4)
   \<and> run example_workflow 150 ''Chart Generator'' example_st3 = Inr example_st4
   \<and> ''function_call'' \<notin> fst ` set (additional_kwargs (last (messages example_st4)))
   \<and> sublist ''FINAL ANSWER'' (content (last (messages example_st4)))"
proof -
  have r: "run example_workflow 150 ''Chart Generator'' example_st3 = Inr example_st4"
    by (simp add: run_unfold example_step4)
  from end_only_on_final_answer
    [of example_researcher example_chart_agent "tools example_search example_repl"
        "''Chart Generator''" example_st3 END example_st4 150]
    example_step4 r
  show ?thesis unfolding example_workflow_def by blast
qed

section \<open>Exceptions: wrapped by the code-execution tool, not by the tool node\<close>

text \<open>
  C5, as stated, fails: the tool node raises on a function call whose arguments are not
  a JSON text. Here the model asked for \<open>python_repl\<close> with the program itself as the
  arguments; \<open>json.loads\<close> raises \<open>JSONDecodeError\<close> and, \<open>tool_node\<close> having no \<open>try\<close>, so
  does the node.
\<close>

theorem tool_node_raises_on_bad_arguments:
  "tool_node (tools example_search example_repl) example_bad_call = Inl JSONDecodeError"
proof -
  have "tool_node (tools example_search example_repl) example_bad_call =
     (case json_loads ''print(333 + 444)'' of
        Inl e \<Rightarrow> Inl e
      | Inr decoded \<Rightarrow>
     (case single_arg_by_value decoded of
        Inl e \<Rightarrow> Inl e
      | Inr tool_input \<Rightarrow>
     (case ToolInvocation (PStr ''python_repl'') tool_input of
        Inl e \<Rightarrow> Inl e
      | Inr action \<Rightarrow>
     (case tool_executor_invoke (tools example_search example_repl) action of
        Inl e \<Rightarrow> Inl e
      | Inr response \<Rightarrow>
          Inr \<lparr>u_messages =
                 [\<lparr>msg_class = FunctionMessage,
                   content = inv_tool action @ '' response: '' @ py_str response,
                   additional_kwargs = [],
                   name = Some (inv_tool action)\<rparr>],
               u_sender = None\<rparr>))))"
    by (rule tool_node_well_formed
          [where fc = "[(''arguments'', PStr ''print(333 + 444)''), (''name'', PStr ''python_repl'')]"])
       (simp_all add: example_bad_call_def)
  then show ?thesis by (simp add: json_loads_raw_code)
qed

text \<open>
  C5, amended. Let the last message carry a \<open>function_call\<close> with the strings \<open>name\<close> and
  \<open>arguments\<close>. The only wrapping of exceptions is the one inside \<open>python_repl\<close>: when
  \<open>name\<close> is \<open>python_repl\<close> and the arguments decode to the object that gives the code as
  \<open>code\<close> or as \<open>__arg1\<close>, the tool node returns a \<open>FunctionMessage\<close> and does not raise,
  whatever the execution of the code does; when the execution raises, the content is
  \<open>python_repl response: Failed to execute. Error: <repr(e)>\<close>. The tool node itself
  wraps nothing: an exception of \<open>json.loads\<close> on the arguments, and an exception that
  comes out of the tool executor, is raised by the tool node.
\<close>

theorem exceptions_wrapped_by_python_repl_only:
  assumes "messages st \<noteq> []"
    and "map_of (additional_kwargs (last (messages st))) ''function_call'' = Some (PDict fc)"
    and "map_of fc ''name'' = Some (PStr tool_name)"
    and "map_of fc ''arguments'' = Some (PStr arguments)"
  shows "(tool_name = ''python_repl'' \<and> t_name tavily_tool \<noteq> ''python_repl''
          \<and> (json_loads arguments = Inr (PDict [(''code'', PStr code)])
              \<or> json_loads arguments = Inr (PDict [(''__arg1'', PStr code)])) \<longrightarrow>
            tool_node (tools tavily_tool repl_run) st =
              Inr \<lparr>u_messages =
                     [\<lparr>msg_class = FunctionMessage,
                       content = ''python_repl response: '' @
                         (case repl_run code of
                            Inl x \<Rightarrow> ''Failed to execute. Error: '' @ py_repr x
                          | Inr result \<Rightarrow> python_repl repl_run code),
                       additional_kwargs = [],
                       name = Some ''python_repl''\<rparr>],
                   u_sender = None\<rparr>)
       \<and> (json_loads arguments = Inl e \<longrightarrow> tool_node ts st = Inl e)
       \<and> (json_loads arguments = Inr decoded \<and> single_arg_by_value decoded = Inr tool_input
            \<and> ToolInvocation (PStr tool_name) tool_input = Inr action
            \<and> tool_executor_invoke ts action = Inl e \<longrightarrow> tool_node ts st = Inl e)"
proof -
  note wf = tool_node_well_formed [OF assms]
  have wrapped: "tool_node (tools tavily_tool repl_run) st =
              Inr \<lparr>u_messages =
                     [\<lparr>msg_class = FunctionMessage,
                       content = ''python_repl response: '' @
                         (case repl_run code of
                            Inl x \<Rightarrow> ''Failed to execute. Error: '' @ py_repr x
                          | Inr result \<Rightarrow> python_repl repl_run code),
                       additional_kwargs = [],
                       name = Some ''python_repl''\<rparr>],
                   u_sender = None\<rparr>"
    if n: "tool_name = ''python_repl''" and d: "t_name tavily_tool \<noteq> ''python_repl''"
      and j: "json_loads arguments = Inr (PDict [(''code'', PStr code)])
              \<or> json_loads arguments = Inr (PDict [(''__arg1'', PStr code)])"
  proof -
    have c: "(case repl_run code of
                Inl x \<Rightarrow> ''Failed to execute. Error: '' @ py_repr x
              | Inr result \<Rightarrow> python_repl repl_run code) = python_repl repl_run code"
      by (simp add: python_repl_def split: sum.splits)
    from j show ?thesis
    proof
      assume "json_loads arguments = Inr (PDict [(''code'', PStr code)])"
      then show ?thesis
        using python_repl_dispatch [OF d, of "PDict [(''code'', PStr code)]" code repl_run]
        by (simp add: wf [of "tools tavily_tool repl_run"] single_arg_by_value_dict n c)
    next
      assume "json_loads arguments = Inr (PDict [(''__arg1'', PStr code)])"
      then show ?thesis
        using python_repl_dispatch [OF d, of "PStr code" code repl_run]
        by (simp add: wf [of "tools tavily_tool repl_run"] single_arg_by_value_dict n c)
    qed
  qed
  have decode: "tool_node ts st = Inl e" if "json_loads arguments = Inl e"
    using that by (simp add: wf)
  have tool: "tool_node ts st = Inl e"
    if "json_loads arguments = Inr decoded" "single_arg_by_value decoded = Inr tool_input"
      "ToolInvocation (PStr tool_name) tool_input = Inr action"
      "tool_executor_invoke ts action = Inl e"
    using that by (simp add: wf)
  from wrapped decode tool show ?thesis by blast
qed

theorem exceptions_wrapped_by_python_repl_only_witness:
  "tool_node (tools example_search example_repl) example_failing_call =
     Inr \<lparr>u_messages =
            [\<lparr>msg_class = FunctionMessage,
              content = ''python_repl response: Failed to execute. Error: SyntaxError()'',
              additional_kwargs = [],
              name = Some ''python_repl''\<rparr>],
          u_sender = None\<rparr>
   \<and> json_loads ''print(333 + 444)'' = Inl JSONDecodeError
   \<and> tool_node (tools example_search example_repl) example_bad_call = Inl JSONDecodeError"
proof -
  let ?args = "''{\"code\": \"print(x +\"}''"
  let ?fc = "[(''arguments'', PStr ?args), (''name'', PStr ''python_repl'')]"
  have h1: "messages example_failing_call \<noteq> []" by (simp add: example_failing_call_def)
  have h2: "map_of (additional_kwargs (last (messages example_failing_call))) ''function_call''
      = Some (PDict ?fc)"
    by (simp add: example_failing_call_def)
  have h3: "map_of ?fc ''name'' = Some (PStr ''python_repl'')" by simp
  have h4: "map_of ?fc ''arguments'' = Some (PStr ?args)" by simp
  have h5: "t_name example_search \<noteq> ''python_repl''" by (simp add: example_search_def)
  from exceptions_wrapped_by_python_repl_only
    [OF h1 h2 h3 h4, where tavily_tool = example_search and code = "''print(x +''"
       and repl_run = example_repl]
    h5 json_loads_failing_code
  have one: "tool_node (tools example_search example_repl) example_failing_call =
     Inr \<lparr>u_messages =
            [\<lparr>msg_class = FunctionMessage,
              content = ''python_repl response: Failed to execute. Error: SyntaxError()'',
              additional_kwargs = [],
              name = Some ''python_repl''\<rparr>],
          u_sender = None\<rparr>"
    by (simp add: example_repl_def)
  let ?bad = "[(''arguments'', PStr ''print(333 + 444)''), (''name'', PStr ''python_repl'')]"
  have b1: "messages example_bad_call \<noteq> []" by (simp add: example_bad_call_def)
  have b2: "map_of (additional_kwargs (last (messages example_bad_call))) ''function_call''
      = Some (PDict ?bad)"
    by (simp add: example_bad_call_def)
  have b3: "map_of ?bad ''name'' = Some (PStr ''python_repl'')" by simp
  have b4: "map_of ?bad ''arguments'' = Some (PStr ''print(333 + 444)'')" by simp
  from exceptions_wrapped_by_python_repl_only
    [OF b1 b2 b3 b4, where e = JSONDecodeError and ts = "tools example_search example_repl"]
    json_loads_raw_code
  have two: "tool_node (tools example_search example_repl) example_bad_call = Inl JSONDecodeError" by blast
  from one json_loads_raw_code two show ?thesis by blast
qed

section \<open>The code-execution tool always returns a string\<close>

text \<open>
  C6. \<open>python_repl\<close> returns a string on every code string. When the execution raises an
  exception \<open>e\<close>, the string is \<open>Failed to execute. Error: \<close> followed by \<open>repr(e)\<close>.
  Otherwise it is \<open>Succesfully executed:\<close>, a line break, the code in a fenced block
  marked \<open>python\<close>, and the line \<open>Stdout: \<close> followed by what the execution returned.
  Invoked as a tool on a code string it returns that string and does not raise.
\<close>

theorem python_repl_returns_string:
  "(repl_run code = Inl e \<longrightarrow>
      python_repl repl_run code = ''Failed to execute. Error: '' @ py_repr e)
   \<and> (repl_run code = Inr result \<longrightarrow>
      python_repl repl_run code =
        ''Succesfully executed:'' @ [CHR 0x0A, CHR 0x60, CHR 0x60, CHR 0x60] @ ''python''
          @ [CHR 0x0A] @ code @ [CHR 0x0A, CHR 0x60, CHR 0x60, CHR 0x60, CHR 0x0A]
          @ ''Stdout: '' @ result)
   \<and> t_invoke (python_repl_tool repl_run) (PStr code) = Inr (Response (python_repl repl_run code))"
  by (simp add: python_repl_def python_repl_tool_def fence_def)

theorem python_repl_returns_string_witness:
  "example_repl ''print(x +'' = Inl (Exn ''SyntaxError()'')
   \<and> python_repl example_repl ''print(x +'' = ''Failed to execute. Error: SyntaxError()''
   \<and> example_repl ''print(333 + 444)'' = Inr (''777'' @ [CHR 0x0A])
   \<and> python_repl example_repl ''print(333 + 444)'' =
        ''Succesfully executed:'' @ [CHR 0x0A, CHR 0x60, CHR 0x60, CHR 0x60] @ ''python''
          @ [CHR 0x0A] @ ''print(333 + 444)'' @ [CHR 0x0A, CHR 0x60, CHR 0x60, CHR 0x60, CHR 0x0A]
          @ ''Stdout: 777'' @ [CHR 0x0A]"
proof -
  have a: "example_repl ''print(x +'' = Inl (Exn ''SyntaxError()'')"
    by (simp add: example_repl_def)
  have b: "example_repl ''print(333 + 444)'' = Inr (''777'' @ [CHR 0x0A])"
    by (simp add: example_repl_def)
  from python_repl_returns_string
    [where repl_run = example_repl and code = "''print(x +''" and e = "Exn ''SyntaxError()''"] a
  have one: "python_repl example_repl ''print(x +'' = ''Failed to execute. Error: SyntaxError()''"
    by simp
  from python_repl_returns_string
    [where repl_run = example_repl and code = "''print(333 + 444)''"
       and result = "''777'' @ [CHR 0x0A]"] b
  have two: "python_repl example_repl ''print(333 + 444)'' =
        ''Succesfully executed:'' @ [CHR 0x0A, CHR 0x60, CHR 0x60, CHR 0x60] @ ''python''
          @ [CHR 0x0A] @ ''print(333 + 444)'' @ [CHR 0x0A, CHR 0x60, CHR 0x60, CHR 0x60, CHR 0x0A]
          @ ''Stdout: 777'' @ [CHR 0x0A]"
    by simp
  from a b one two show ?thesis by blast
qed

section \<open>The state: two fields, and the sender tag\<close>

text \<open>
  C7. A state is its two fields, \<open>messages\<close> and \<open>sender\<close>. The update of an agent node
  sets \<open>sender\<close> to the name of that agent. So after any positive number of steps from
  the entry point, \<open>sender\<close> is the name of the agent node that ran last: the agent that
  produced the most recent agent message.
\<close>

theorem sender_names_last_agent:
  "(st :: AgentState) = \<lparr>messages = messages st, sender = sender st\<rparr>
   \<and> (agent_node st agent nm = Inr u \<longrightarrow>
        u_sender u = Some nm \<and> sender (apply_update st u) = Some nm)
   \<and> (graph_steps (workflow ra ca ts) k ([], ''assistant'', st0) = Inr (tr, node, st1) \<and> 0 < k \<longrightarrow>
        agents_of tr \<noteq> [] \<and> sender st1 = Some (last (agents_of tr)))"
proof -
  have one: "st = \<lparr>messages = messages st, sender = sender st\<rparr>" by simp
  have two: "u_sender u = Some nm \<and> sender (apply_update st u) = Some nm"
    if "agent_node st agent nm = Inr u"
    using agent_node_update [OF that] by (simp add: apply_update_def)
  have three: "agents_of tr \<noteq> [] \<and> sender st1 = Some (last (agents_of tr))"
    if run: "graph_steps (workflow ra ca ts) k ([], ''assistant'', st0) = Inr (tr, node, st1)"
      and k: "0 < k"
  proof -
    from k obtain j where j: "k = Suc j" by (cases k) auto
    from run j obtain dest st' where
      rest: "graph_steps (workflow ra ca ts) j ([''assistant''], dest, st') = Inr (tr, node, st1)"
      by (auto split: sum.splits)
    from graph_steps_trace [OF rest] have "take 1 tr = [''assistant'']" by simp
    then have "tr \<noteq> [] \<and> hd tr = ''assistant''" by (cases tr) auto
    then have ne: "agents_of tr \<noteq> []" by (cases tr) (auto simp: agents_of_def)
    from graph_steps_sender [OF run] ne show ?thesis by (simp add: agents_of_def)
  qed
  from one two three show ?thesis by blast
qed

theorem sender_names_last_agent_witness:
  "agent_node example_st0 example_researcher ''assistant'' =
      Inr \<lparr>u_messages = [example_msg1], u_sender = Some ''assistant''\<rparr>
   \<and> sender (apply_update example_st0
        \<lparr>u_messages = [example_msg1], u_sender = Some ''assistant''\<rparr>) = Some ''assistant''
   \<and> graph_steps example_workflow 4 ([], ''assistant'', example_st0) =
        Inr ([''assistant'', ''Chart Generator'', ''call_tool'', ''Chart Generator''], END,
             example_st4)
   \<and> sender example_st4 =
        Some (last (agents_of [''assistant'', ''Chart Generator'', ''call_tool'', ''Chart Generator'']))"
proof -
  let ?u = "\<lparr>u_messages = [example_msg1], u_sender = Some ''assistant''\<rparr>"
  let ?tr = "[''assistant'', ''Chart Generator'', ''call_tool'', ''Chart Generator'']"
  have a: "agent_node example_st0 example_researcher ''assistant'' = Inr ?u"
    by (simp add: agent_node_def example_researcher_def text_reply_def example_msg1_def)
  have k: "(0::nat) < 4" by simp
  from sender_names_last_agent
    [of example_st0 example_researcher "''assistant''" ?u
        example_researcher example_chart_agent "tools example_search example_repl"
        4 example_st0 ?tr END example_st4]
    a example_steps k
  show ?thesis unfolding example_workflow_def by blast
qed

section \<open>The tool node leaves the sender alone\<close>

text \<open>
  C8. The update of the tool node has the \<open>messages\<close> key only, and folding it into the
  state leaves \<open>sender\<close> as it was. So when an agent node has run and the graph has gone
  to \<open>call_tool\<close>, the step of the tool node goes back to that same agent.
\<close>

theorem tool_node_keeps_sender:
  "(tool_node ts st = Inr u \<longrightarrow>
      u = \<lparr>u_messages = u_messages u, u_sender = None\<rparr>
      \<and> sender (apply_update st u) = sender st)
   \<and> ((a = ''assistant'' \<or> a = ''Chart Generator'')
        \<and> graph_step (workflow ra ca ts) a st0 = Inr (''call_tool'', st1)
        \<and> graph_step (workflow ra ca ts) ''call_tool'' st1 = Inr (dest, st2)
      \<longrightarrow> dest = a \<and> sender st2 = Some a)"
proof -
  have one: "u = \<lparr>u_messages = u_messages u, u_sender = None\<rparr>
      \<and> sender (apply_update st u) = sender st"
    if "tool_node ts st = Inr u"
    using tool_node_update_shape [OF that] by (simp add: apply_update_def)
  have two: "dest = a \<and> sender st2 = Some a"
    if a: "a = ''assistant'' \<or> a = ''Chart Generator''"
      and s1: "graph_step (workflow ra ca ts) a st0 = Inr (''call_tool'', st1)"
      and s2: "graph_step (workflow ra ca ts) ''call_tool'' st1 = Inr (dest, st2)"
  proof -
    from graph_step_sender [OF s1] a have "sender st1 = Some a" by auto
    moreover from graph_step_sender [OF s2] have "sender st2 = sender st1" by simp
    moreover from s2 have "\<exists>u. tool_node ts st1 = Inr u \<and> st2 = apply_update st1 u
        \<and> sender_of st2 = Inr dest"
      using a by (auto simp: graph_step_call_tool split: sum.splits option.splits if_splits)
    ultimately show ?thesis by (auto simp: sender_of_def)
  qed
  from one two show ?thesis by blast
qed

theorem tool_node_keeps_sender_witness:
  "tool_node (tools example_search example_repl) example_st2 =
      Inr \<lparr>u_messages = [example_msg3], u_sender = None\<rparr>
   \<and> sender (apply_update example_st2 \<lparr>u_messages = [example_msg3], u_sender = None\<rparr>) =
        sender example_st2
   \<and> graph_step example_workflow ''Chart Generator'' example_st1 = Inr (''call_tool'', example_st2)
   \<and> graph_step example_workflow ''call_tool'' example_st2 = Inr (''Chart Generator'', example_st3)
   \<and> sender example_st3 = Some ''Chart Generator''"
proof -
  from tool_node_keeps_sender
    [where ts = "tools example_search example_repl" and st = example_st2
       and u = "\<lparr>u_messages = [example_msg3], u_sender = None\<rparr>" and a = "''Chart Generator''"
       and ra = example_researcher and ca = example_chart_agent and ?st0.0 = example_st1
       and ?st1.0 = example_st2 and dest = "''Chart Generator''" and ?st2.0 = example_st3]
    example_tool_node example_step2 example_step3
  show ?thesis unfolding example_workflow_def by blast
qed

section \<open>The function call is checked before the final answer\<close>

text \<open>
  C9. When the last message both has the key \<open>function_call\<close> in \<open>additional_kwargs\<close> and
  contains \<open>FINAL ANSWER\<close> in its content, the router returns \<open>call_tool\<close>, not \<open>end\<close>.
\<close>

theorem router_function_call_precedence:
  assumes "messages st \<noteq> []"
    and "''function_call'' \<in> fst ` set (additional_kwargs (last (messages st)))"
    and "sublist ''FINAL ANSWER'' (content (last (messages st)))"
  shows "router st = Inr ''call_tool'' \<and> router st \<noteq> Inr ''end''"
  using assms by (simp add: router_def py_last_def py_in_dict_def)

theorem router_function_call_precedence_witness:
  "router \<lparr>messages =
       [\<lparr>msg_class = HumanMessage, content = ''FINAL ANSWER: see the chart'',
         additional_kwargs =
           [(''function_call'',
             PDict [(''arguments'', PStr ''{}''), (''name'', PStr ''python_repl'')])],
         name = Some ''Chart Generator''\<rparr>],
     sender = Some ''Chart Generator''\<rparr> = Inr ''call_tool''"
  using router_function_call_precedence [of "\<lparr>messages =
       [\<lparr>msg_class = HumanMessage, content = ''FINAL ANSWER: see the chart'',
         additional_kwargs =
           [(''function_call'',
             PDict [(''arguments'', PStr ''{}''), (''name'', PStr ''python_repl'')])],
         name = Some ''Chart Generator''\<rparr>],
     sender = Some ''Chart Generator''\<rparr>"]
  by (simp add: sublist_Cons_right)

section \<open>The messages list only grows\<close>

text \<open>
  C10. Folding an update into the state appends the update's messages to the list. An
  agent node returns exactly one message, the tool node exactly one \<open>FunctionMessage\<close>.
  So a step of the graph appends one message and leaves the earlier ones as they were,
  and after \<open>k\<close> steps the list is the old list followed by \<open>k\<close> new messages.
\<close>

theorem messages_append_only:
  "messages (apply_update st u) = messages st @ u_messages u
   \<and> (agent_node st agent nm = Inr u \<longrightarrow> length (u_messages u) = 1)
   \<and> (tool_node ts st = Inr u \<longrightarrow>
        length (u_messages u) = 1 \<and> msg_class (hd (u_messages u)) = FunctionMessage)
   \<and> (graph_step (workflow ra ca ts) node st = Inr (dest, st') \<longrightarrow>
        butlast (messages st') = messages st \<and> length (messages st') = length (messages st) + 1)
   \<and> (graph_steps (workflow ra ca ts) k (tr0, node, st) = Inr (tr, node', st') \<longrightarrow>
        take (length (messages st)) (messages st') = messages st
        \<and> length (messages st') = length (messages st) + k)"
proof -
  have one: "messages (apply_update st u) = messages st @ u_messages u"
    by (simp add: apply_update_def)
  have two: "length (u_messages u) = 1" if "agent_node st agent nm = Inr u"
    using agent_node_update [OF that] by auto
  have three: "length (u_messages u) = 1 \<and> msg_class (hd (u_messages u)) = FunctionMessage"
    if "tool_node ts st = Inr u"
    using tool_node_update_shape [OF that] by auto
  have four: "butlast (messages st') = messages st
      \<and> length (messages st') = length (messages st) + 1"
    if "graph_step (workflow ra ca ts) node st = Inr (dest, st')"
    using graph_step_messages [OF that] by auto
  have five: "take (length (messages st)) (messages st') = messages st
        \<and> length (messages st') = length (messages st) + k"
    if "graph_steps (workflow ra ca ts) k (tr0, node, st) = Inr (tr, node', st')"
    using graph_steps_messages [OF that] by simp
  from one two three four five show ?thesis by blast
qed

theorem messages_append_only_witness:
  "agent_node example_st0 example_researcher ''assistant'' =
      Inr \<lparr>u_messages = [example_msg1], u_sender = Some ''assistant''\<rparr>
   \<and> tool_node (tools example_search example_repl) example_st2 =
      Inr \<lparr>u_messages = [example_msg3], u_sender = None\<rparr>
   \<and> graph_step example_workflow ''call_tool'' example_st2 = Inr (''Chart Generator'', example_st3)
   \<and> butlast (messages example_st3) = messages example_st2
   \<and> graph_steps example_workflow 4 ([], ''assistant'', example_st0) =
        Inr ([''assistant'', ''Chart Generator'', ''call_tool'', ''Chart Generator''], END,
             example_st4)
   \<and> take (length (messages example_st0)) (messages example_st4) = messages example_st0
   \<and> length (messages example_st4) = length (messages example_st0) + 4"
proof -
  let ?u = "\<lparr>u_messages = [example_msg1], u_sender = Some ''assistant''\<rparr>"
  have a: "agent_node example_st0 example_researcher ''assistant'' = Inr ?u"
    by (simp add: agent_node_def example_researcher_def text_reply_def example_msg1_def)
  from messages_append_only
    [of example_st2 "\<lparr>u_messages = [example_msg3], u_sender = None\<rparr>"
        example_researcher "''assistant''" "tools example_search example_repl"
        example_researcher example_chart_agent "''call_tool''" "''Chart Generator''" example_st3]
    example_tool_node example_step3
  have one: "butlast (messages example_st3) = messages example_st2"
    unfolding example_workflow_def by blast
  from messages_append_only
    [of example_st0 ?u example_researcher "''assistant''" "tools example_search example_repl"
        example_researcher example_chart_agent "''assistant''" END example_st4
        4 "[]" "[''assistant'', ''Chart Generator'', ''call_tool'', ''Chart Generator'']" END]
    example_steps
  have two: "take (length (messages example_st0)) (messages example_st4) = messages example_st0
     \<and> length (messages example_st4) = length (messages example_st0) + 4"
    unfolding example_workflow_def by blast
  from a example_tool_node example_step3 example_steps one two show ?thesis by blast
qed

end
